theory Spec2Isabelle
  imports
    Complex_Main
    "HOL-Library.Char_ord"
    "HOL-Library.List_Lexorder"
    "HOL-Library.Product_Lexorder"
    "HOL-Library.AList"
begin

section \<open>Python values\<close>

subsection \<open>Floats\<close>

text \<open>
  A Python \<open>float\<close> is a finite float, an infinity or NaN. A finite float is the real
  number it denotes (the two zeros are one value here); a float literal of the sources is
  the float nearest to the decimal, written as the fraction it is exactly.
\<close>

datatype pyfloat = NaN | NegInf | Fin real | PosInf

definition FLOAT_MAX :: real where
  "FLOAT_MAX = 2 ^ 1024 - 2 ^ 971"

definition F0_4 :: real where
  "F0_4 = 3602879701896397 / 9007199254740992"

definition F0_6 :: real where
  "F0_6 = 5404319552844595 / 9007199254740992"

definition F0_7 :: real where
  "F0_7 = 3152519739159347 / 4503599627370496"

definition F0_8 :: real where
  "F0_8 = 3602879701896397 / 4503599627370496"

definition F0_9 :: real where
  "F0_9 = 8106479329266893 / 9007199254740992"

text \<open>
  What the interpreter and its library provide is a parameter: \<open>round_float\<close> gives the
  float nearest to a real number (ties to even) as if the exponent had no upper bound,
  \<open>float_sum\<close> is the built-in \<open>sum\<close> on a list of finite floats (its rounding depends
  on the interpreter), \<open>float_of_str\<close> is \<open>float\<close> on a string (\<open>None\<close> where it
  raises ValueError), \<open>str_upper\<close> is \<open>str.upper\<close>. Arithmetic on floats is the exact
  result, rounded: \<open>to_float\<close> rounds and overflows to an infinity beyond the largest
  float.
\<close>

record py_lib =
  round_float :: "real \<Rightarrow> real"
  float_sum :: "real list \<Rightarrow> pyfloat"
  float_of_str :: "string \<Rightarrow> pyfloat option"
  str_upper :: "string \<Rightarrow> string"

definition to_float :: "py_lib \<Rightarrow> real \<Rightarrow> pyfloat" where
  "to_float py x =
     (let y = round_float py x in
      if y > FLOAT_MAX then PosInf else if y < - FLOAT_MAX then NegInf else Fin y)"

text \<open>The comparisons \<open><\<close>, \<open><=\<close>, \<open>==\<close> of floats: False whenever a side is NaN.\<close>

fun flt_lt :: "pyfloat \<Rightarrow> pyfloat \<Rightarrow> bool" where
  "flt_lt NaN b = False"
| "flt_lt a NaN = False"
| "flt_lt a NegInf = False"
| "flt_lt PosInf b = False"
| "flt_lt NegInf b = True"
| "flt_lt a PosInf = True"
| "flt_lt (Fin x) (Fin y) = (x < y)"

definition flt_eq :: "pyfloat \<Rightarrow> pyfloat \<Rightarrow> bool" where
  "flt_eq a b = (a \<noteq> NaN \<and> a = b)"

definition flt_le :: "pyfloat \<Rightarrow> pyfloat \<Rightarrow> bool" where
  "flt_le a b = (flt_lt a b \<or> flt_eq a b)"

text \<open>
  \<open>a + b\<close> and \<open>a * b\<close> on floats: opposite infinities add to NaN, an infinity times
  zero is NaN.
\<close>

fun fl_add :: "py_lib \<Rightarrow> pyfloat \<Rightarrow> pyfloat \<Rightarrow> pyfloat" where
  "fl_add py (Fin x) (Fin y) = to_float py (x + y)"
| "fl_add py NaN b = NaN"
| "fl_add py a NaN = NaN"
| "fl_add py PosInf NegInf = NaN"
| "fl_add py NegInf PosInf = NaN"
| "fl_add py PosInf b = PosInf"
| "fl_add py a PosInf = PosInf"
| "fl_add py NegInf b = NegInf"
| "fl_add py a NegInf = NegInf"

fun fl_sign :: "pyfloat \<Rightarrow> int" where
  "fl_sign NaN = 0"
| "fl_sign NegInf = - 1"
| "fl_sign PosInf = 1"
| "fl_sign (Fin x) = (if x > 0 then 1 else if x < 0 then - 1 else 0)"

definition inf_of_sign :: "int \<Rightarrow> pyfloat" where
  "inf_of_sign sg = (if sg > 0 then PosInf else if sg < 0 then NegInf else NaN)"

fun fl_mul :: "py_lib \<Rightarrow> pyfloat \<Rightarrow> pyfloat \<Rightarrow> pyfloat" where
  "fl_mul py (Fin x) (Fin y) = to_float py (x * y)"
| "fl_mul py NaN b = NaN"
| "fl_mul py a NaN = NaN"
| "fl_mul py PosInf b = inf_of_sign (fl_sign b)"
| "fl_mul py NegInf b = inf_of_sign (- fl_sign b)"
| "fl_mul py a PosInf = inf_of_sign (fl_sign a)"
| "fl_mul py a NegInf = inf_of_sign (- fl_sign a)"

text \<open>
  The built-ins \<open>max(a, b)\<close> and \<open>min(a, b)\<close> keep \<open>a\<close> unless \<open>b\<close> is strictly
  greater (smaller): with a NaN on either side the result is \<open>a\<close>.
\<close>

definition py_max :: "pyfloat \<Rightarrow> pyfloat \<Rightarrow> pyfloat" where
  "py_max a b = (if flt_lt a b then b else a)"

definition py_min :: "pyfloat \<Rightarrow> pyfloat \<Rightarrow> pyfloat" where
  "py_min a b = (if flt_lt b a then b else a)"

subsection \<open>Values and errors\<close>

text \<open>
  The dictionaries the program passes around (\<open>Dict[str, Any]\<close>) hold JSON-like values.
  A dictionary is an association list in insertion order, with string keys.
\<close>

datatype pyval =
    VNone
  | VBool bool
  | VInt int
  | VFloat pyfloat
  | VStr string
  | VList "pyval list"
  | VDict "(string \<times> pyval) list"

type_synonym pydict = "(string \<times> pyval) list"

datatype error = AttributeError | TypeError | ValueError | OverflowError

text \<open>
  An integer that meets a float in an arithmetic operation, or is passed to \<open>float\<close>,
  is converted to the nearest float; beyond the floats' range that is an OverflowError.
\<close>

definition float_of_int :: "py_lib \<Rightarrow> int \<Rightarrow> error + real" where
  "float_of_int py i =
     (case to_float py (real_of_int i) of Fin x \<Rightarrow> Inr x | _ \<Rightarrow> Inl OverflowError)"

text \<open>
  \<open>k in d\<close> and \<open>d.get(k)\<close> are \<open>map_of d k\<close>; \<open>d[k] = v\<close> is \<open>AList.update k v d\<close>,
  which overwrites the entry in place or appends a new one.
\<close>

text \<open>Python truthiness (\<open>bool(v)\<close>, \<open>not v\<close>, \<open>v or w\<close>).\<close>

fun py_truthy :: "pyval \<Rightarrow> bool" where
  "py_truthy VNone = False"
| "py_truthy (VBool b) = b"
| "py_truthy (VInt i) = (i \<noteq> 0)"
| "py_truthy (VFloat r) = (r \<noteq> Fin 0)"
| "py_truthy (VStr s) = (s \<noteq> [])"
| "py_truthy (VList xs) = (xs \<noteq> [])"
| "py_truthy (VDict kvs) = (kvs \<noteq> [])"

section \<open>core/logic/apophatic\_guard.py\<close>

definition FORBIDDEN_KEYS :: "string list" where
  "FORBIDDEN_KEYS =
     [''ground_is'', ''ultimate_name'', ''final_owner'', ''sovereign_claim'',
      ''ground_truth'', ''completion'']"

definition CONSTRAINT_ONLY :: "string list" where
  "CONSTRAINT_ONLY =
     [''no_image'', ''no_totalization'', ''no_equivalence'', ''no_exchange'',
      ''no_possession'']"

text \<open>
  \<open>_flatten_dict(d, prefix, result)\<close>: walks \<open>d.items()\<close> in order; a value that is a
  dictionary is flattened under the key \<open>prefix.k\<close> (or \<open>k\<close> when the prefix is empty),
  any other value is stored in \<open>result\<close> under that key, overwriting an earlier entry.
  The accumulator \<open>result\<close> is the map from keys to values.
\<close>

function flatten_dict :: "pydict \<Rightarrow> string \<Rightarrow> (string \<rightharpoonup> pyval) \<Rightarrow> (string \<rightharpoonup> pyval)" where
  "flatten_dict [] prefix result = result"
| "flatten_dict ((k, v) # rest) prefix result =
     (let key = (if prefix \<noteq> [] then prefix @ ''.'' @ k else k) in
      flatten_dict rest prefix
        (case v of
           VDict d \<Rightarrow> flatten_dict d key result
         | _ \<Rightarrow> result(key \<mapsto> v)))"
  by pat_completeness auto
termination
  by (relation "measure (\<lambda>(d, p, r). size_list (size_prod (\<lambda>_. 0) size) d)") auto

text \<open>\<open>v in (True, "enforced")\<close>: Python compares with \<open>==\<close>, and \<open>1 == True\<close>.\<close>

fun is_enforced :: "pyval \<Rightarrow> bool" where
  "is_enforced (VBool b) = b"
| "is_enforced (VInt i) = (i = 1)"
| "is_enforced (VFloat r) = (r = Fin 1)"
| "is_enforced (VStr s) = (s = ''enforced'')"
| "is_enforced _ = False"

definition admissible :: "pydict \<Rightarrow> pydict \<Rightarrow> bool" where
  "admissible context params =
     (let all_params = flatten_dict params [] Map.empty;
          all_context = flatten_dict context [] Map.empty;
          combined = all_context ++ all_params
      in if list_ex (\<lambda>k. combined k \<noteq> None) FORBIDDEN_KEYS then False
         else if list_ex (\<lambda>k. case combined k of None \<Rightarrow> False | Some v \<Rightarrow> \<not> is_enforced v)
                   CONSTRAINT_ONLY then False
         else True)"

text \<open>The dictionaries of \<open>test_guard\<close>.\<close>

definition nested_params :: pydict where
  "nested_params =
     [(''deep'', VDict [(''deeper'', VDict [(''ground_is'', VStr ''hidden here'')])])]"

definition invalid_params1 :: pydict where
  "invalid_params1 = [(''ground_is'', VStr ''being''), (''no_totalization'', VBool True)]"

section \<open>core/logic/consent\_checker.py\<close>

text \<open>
  The clock (\<open>time.time()\<close>) is a parameter \<open>now\<close> of every function that reads it.
\<close>

definition scope_levels :: "string \<rightharpoonup> nat" where
  "scope_levels =
     map_of [(''self'', 0), (''dyad'', 1), (''group'', 2), (''org'', 3), (''public'', 4)]"

definition can_escalate :: "string \<Rightarrow> string \<Rightarrow> bool" where
  "can_escalate from_scope to_scope =
     (case scope_levels from_scope of
        None \<Rightarrow> False
      | Some lf \<Rightarrow>
          (case scope_levels to_scope of
             None \<Rightarrow> False
           | Some lt \<Rightarrow> lf \<ge> lt))"

record ConsentTicket =
  scope :: string
  issued_at :: pyfloat
  ttl_seconds :: int
  max_invocations :: int
  invocations :: int

text \<open>
  \<open>is_valid\<close> compares the clock with the float sum \<open>issued_at + ttl_seconds\<close>: the
  integer is converted first (an OverflowError when it is too large), and the sum is
  rounded.
\<close>

definition is_valid :: "py_lib \<Rightarrow> real \<Rightarrow> ConsentTicket \<Rightarrow> error + bool" where
  "is_valid py now t =
     (case float_of_int py (ttl_seconds t) of
        Inl e \<Rightarrow> Inl e
      | Inr ttl \<Rightarrow>
          if flt_lt (fl_add py (issued_at t) (Fin ttl)) (Fin now) then Inr False
          else if invocations t \<ge> max_invocations t then Inr False
          else Inr True)"

text \<open>
  \<open>use()\<close> mutates the ticket: the model returns the result (or the error raised)
  together with the ticket after the call.
\<close>

definition use :: "py_lib \<Rightarrow> real \<Rightarrow> ConsentTicket \<Rightarrow> (error + bool) \<times> ConsentTicket" where
  "use py now t =
     (case is_valid py now t of
        Inl e \<Rightarrow> (Inl e, t)
      | Inr v \<Rightarrow>
          if \<not> v then (Inr False, t)
          else (Inr True, t\<lparr>invocations := invocations t + 1\<rparr>))"

text \<open>
  A sequence of \<open>use()\<close> calls on one ticket, one clock reading per call, whether a
  call returns or raises.
\<close>

fun use_all :: "py_lib \<Rightarrow> real list \<Rightarrow> ConsentTicket \<Rightarrow> ConsentTicket" where
  "use_all py [] t = t"
| "use_all py (now # nows) t = use_all py nows (snd (use py now t))"

text \<open>
  \<open>extract_from_context\<close> reads the context at the keys \<open>consent\<close> and
  \<open>consent_tickets\<close> only. The model is the view of the context at these two keys,
  with the ticket fields at the types the dataclass declares: a field of a dictionary is
  absent (\<open>None\<close>) or present. The default of \<open>issued_at\<close> is the float difference
  \<open>time.time() - 60\<close>.
\<close>

record ticket_fields =
  f_scope :: "string option"
  f_issued_at :: "pyfloat option"
  f_ttl_seconds :: "int option"
  f_max_invocations :: "int option"
  f_invocations :: "int option"

record consent_fields = ticket_fields +
  f_valid :: "bool option"

datatype ticket_item = ItemDict ticket_fields | ItemTicket ConsentTicket | ItemOther

datatype 'a entry = Absent | WrongType | Present 'a

record consent_context =
  consent_entry :: "consent_fields entry"
  consent_tickets_entry :: "ticket_item list entry"

definition ticket_of_fields ::
  "py_lib \<Rightarrow> real \<Rightarrow> string \<Rightarrow> 'a ticket_fields_scheme \<Rightarrow> ConsentTicket" where
  "ticket_of_fields py now sc c =
     \<lparr>scope = sc,
      issued_at = (case f_issued_at c of None \<Rightarrow> fl_add py (Fin now) (Fin (- 60)) | Some x \<Rightarrow> x),
      ttl_seconds = (case f_ttl_seconds c of None \<Rightarrow> 3600 | Some x \<Rightarrow> x),
      max_invocations = (case f_max_invocations c of None \<Rightarrow> 1 | Some x \<Rightarrow> x),
      invocations = (case f_invocations c of None \<Rightarrow> 0 | Some x \<Rightarrow> x)\<rparr>"

fun ticket_of_item :: "py_lib \<Rightarrow> real \<Rightarrow> ticket_item \<Rightarrow> ConsentTicket list" where
  "ticket_of_item py now (ItemDict t) =
     [ticket_of_fields py now (case f_scope t of None \<Rightarrow> ''self'' | Some sc \<Rightarrow> sc) t]"
| "ticket_of_item py now (ItemTicket t) = [t]"
| "ticket_of_item py now ItemOther = []"

definition extract_from_context :: "py_lib \<Rightarrow> real \<Rightarrow> consent_context \<Rightarrow> ConsentTicket list" where
  "extract_from_context py now ctx =
     (case consent_entry ctx of
        Present c \<Rightarrow>
          (case f_scope c of
             Some sc \<Rightarrow> (if f_valid c = Some True then [ticket_of_fields py now sc c] else [])
           | None \<Rightarrow> [])
      | _ \<Rightarrow> [])
     @
     (case consent_tickets_entry ctx of
        Present ts \<Rightarrow> concat (map (ticket_of_item py now) ts)
      | _ \<Rightarrow> [])"

text \<open>
  \<open>any(... for t in tickets)\<close>: the tickets are tested in order, up to the first that
  passes or raises.
\<close>

fun any_ticket :: "(ConsentTicket \<Rightarrow> error + bool) \<Rightarrow> ConsentTicket list \<Rightarrow> error + bool" where
  "any_ticket p [] = Inr False"
| "any_ticket p (t # ts) =
     (case p t of
        Inl e \<Rightarrow> Inl e
      | Inr v \<Rightarrow> if v then Inr True else any_ticket p ts)"

definition check_context :: "py_lib \<Rightarrow> real \<Rightarrow> consent_context \<Rightarrow> string option \<Rightarrow> error + bool" where
  "check_context py now ctx target_scope =
     (let tickets = extract_from_context py now ctx in
      if tickets = [] then Inr False
      else
        (case target_scope of
           None \<Rightarrow> any_ticket (is_valid py now) tickets
         | Some tgt \<Rightarrow>
             any_ticket
               (\<lambda>t. case is_valid py now t of
                       Inl e \<Rightarrow> Inl e
                     | Inr v \<Rightarrow> Inr (v \<and> can_escalate (scope t) tgt))
               tickets))"

section \<open>core/planner/decision\_core.py\<close>

datatype Decision = Answer | Refuse | Stand

datatype TruthVal = T | F | B | N

text \<open>
  The planner has a ticket class of its own (same name, other fields): no invocation
  count, and valid while the clock has not passed \<open>issued_at + ttl_seconds\<close>. Its
  names carry the suffix \<open>_dc\<close> here. The fields \<open>id\<close> of an action and \<open>context\<close>
  of a state are \<open>act_id\<close> and \<open>context_st\<close>. In this module the floats are the
  finite ones, as real numbers; the sum of \<open>is_valid\<close> is the exact one, which is the
  float sum for the tickets of the examples (issued at time 0, for a minute or a day);
  the product of the solver, on which its comparisons depend, is the rounded one.
\<close>

record ConsentTicket_dc =
  holder :: string
  scope_dc :: string
  ttl_seconds_dc :: int
  issued_at_dc :: real
  terms :: pydict

definition is_valid_dc :: "real \<Rightarrow> ConsentTicket_dc \<Rightarrow> bool" where
  "is_valid_dc now t = (now \<le> issued_at_dc t + real_of_int (ttl_seconds_dc t))"

record ProofBundle =
  logic :: pydict
  ethics :: pydict
  consent :: pydict
  phenomenology :: pydict
  repair_horizon :: "real option"

record Action =
  act_id :: string
  description :: string
  params :: pydict
  reversible :: bool
  predicted_truth :: TruthVal
  proto_proofs :: "ProofBundle option"

record State =
  context_st :: pydict
  stage :: string
  will_operator :: string
  consent_tickets :: "ConsentTicket_dc list"
  paradox_nearby :: bool

record DecisionResult =
  decision :: Decision
  chosen_action :: "Action option"
  delta_E :: "real option"
  grace :: "real option"
  truth :: "TruthVal option"
  proofs :: ProofBundle
  ledger_id :: "string option"

text \<open>
  The configuration read from \<open>docs/vows.yaml\<close> and the functions the module imports at
  run time from modules that do not define them here (\<open>energy\<close>, \<open>grace\<close>, \<open>price\<close>,
  \<open>counter_context\<close>, \<open>store\<close>) or that read further configuration (\<open>weight_for\<close>)
  are parameters. \<open>antimemory_countercontext\<close> may raise: \<open>decide\<close> catches it.
  The library of floats comes with them.
\<close>

record seams =
  MIN_DELTA_E :: real
  MIN_GRACE :: real
  ledger_required :: bool
  repair_horizon_max_days :: real
  energy_E :: "State \<Rightarrow> Action \<Rightarrow> real"
  grace_G :: "State \<Rightarrow> Action \<Rightarrow> real"
  kernel_weight :: "State \<Rightarrow> Action \<Rightarrow> real"
  price_externalities :: "State \<Rightarrow> Action \<Rightarrow> pydict"
  antimemory_countercontext :: "State \<Rightarrow> Action \<Rightarrow> error + pydict"
  attach_pca :: "string \<Rightarrow> ProofBundle \<Rightarrow> string"
  pylib :: py_lib

text \<open>\<open>t.__dict__\<close> of a planner ticket.\<close>

definition ticket_dict :: "ConsentTicket_dc \<Rightarrow> pyval" where
  "ticket_dict t =
     VDict [(''holder'', VStr (holder t)), (''scope'', VStr (scope_dc t)),
            (''ttl_seconds'', VInt (ttl_seconds_dc t)), (''issued_at'', VFloat (Fin (issued_at_dc t))),
            (''terms'', VDict (terms t))]"

definition check_consent :: "real \<Rightarrow> State \<Rightarrow> Action option \<Rightarrow> bool \<times> pydict" where
  "check_consent now state action =
     (let valid = list_all (is_valid_dc now) (consent_tickets state) in
      (valid, [(''tickets'', VList (map ticket_dict (consent_tickets state)))]))"

text \<open>
  \<open>check_apophatic\<close> reads \<open>action.params\<close>: on \<open>None\<close> that is an AttributeError.
\<close>

definition check_apophatic :: "State \<Rightarrow> Action option \<Rightarrow> error + (bool \<times> pydict)" where
  "check_apophatic state action =
     (case action of
        None \<Rightarrow> Inl AttributeError
      | Some a \<Rightarrow>
          (let ok = admissible (context_st state) (params a) in
           Inr (ok, [(''apophatic_ok'', VBool ok)])))"

subsection \<open>Minimal-Clean-Move\<close>

text \<open>
  A scored candidate \<open>(a, EK, E, G)\<close>: the raw cost \<open>E\<close>, the weight \<open>K\<close> and the
  coherence \<open>G\<close> are finite floats; \<open>EK\<close> is their float product \<open>E * K\<close>, rounded,
  an infinity when it overflows.
\<close>

type_synonym scored = "Action \<times> pyfloat \<times> real \<times> real"

definition score :: "seams \<Rightarrow> State \<Rightarrow> Action \<Rightarrow> scored" where
  "score sm state a =
     (let E = energy_E sm state a;
          K = kernel_weight sm state a;
          EK = fl_mul (pylib sm) (Fin E) (Fin K);
          G = grace_G sm state a
      in (a, EK, E, G))"

text \<open>
  The selection loop starts from \<open>best = None\<close>, \<open>best_EK = best_E = inf\<close>,
  \<open>best_G = -inf\<close>: the model keeps \<open>None\<close> for that start, which every candidate
  improves on, since \<open>EK < inf\<close>, or \<open>EK == inf\<close> and \<open>G > -inf\<close>.
\<close>

fun improves :: "scored \<Rightarrow> scored option \<Rightarrow> bool" where
  "improves (a, EK, E, G) None = True"
| "improves (a, EK, E, G) (Some (b, best_EK, best_E, best_G)) =
     (flt_lt EK best_EK \<or>
      (flt_eq EK best_EK \<and> (G > best_G \<or> (G = best_G \<and> E < best_E))))"

fun select_loop :: "scored list \<Rightarrow> scored option \<Rightarrow> scored option" where
  "select_loop [] best = best"
| "select_loop (s # rest) best = select_loop rest (if improves s best then Some s else best)"

type_synonym move = "Action option \<times> real option \<times> real option"

definition minimal_clean_move :: "seams \<Rightarrow> State \<Rightarrow> Action list \<Rightarrow> move" where
  "minimal_clean_move sm state candidates =
     (let scored = map (score sm state) candidates in
      case select_loop scored None of
        None \<Rightarrow> (None, None, None)
      | Some (best, best_EK, best_E, best_G) \<Rightarrow>
          (let delta_E = best_E in
           if delta_E \<ge> MIN_DELTA_E sm then (None, None, None)
           else if best_G < MIN_GRACE sm then
             (let viable = filter (\<lambda>(a, EK, E, G). E < MIN_DELTA_E sm) scored in
              case sort_key (\<lambda>(a, EK, E, G). (- G, E)) viable of
                [] \<Rightarrow> (None, None, None)
              | (a2, EK2, E2, G2) # _ \<Rightarrow>
                  if G2 \<ge> MIN_GRACE sm then (Some a2, Some E2, Some G2)
                  else (None, None, None))
           else (Some best, Some delta_E, Some best_G)))"

subsection \<open>PGL decision\<close>

definition dict_get_default :: "pydict \<Rightarrow> string \<Rightarrow> pyval \<Rightarrow> pyval" where
  "dict_get_default d k dflt = (case map_of d k of None \<Rightarrow> dflt | Some v \<Rightarrow> v)"

definition pgl_decide :: "State \<Rightarrow> Action option \<Rightarrow> ProofBundle \<Rightarrow> TruthVal \<Rightarrow> Decision" where
  "pgl_decide state action proofs_b truth_v =
     (case action of
        None \<Rightarrow>
          (let consent_ok = dict_get_default (consent proofs_b) ''ok'' (VBool True);
               apoph_ok = dict_get_default (logic proofs_b) ''apophatic_ok'' (VBool True)
           in if \<not> py_truthy consent_ok \<or> \<not> py_truthy apoph_ok then Refuse else Stand)
      | Some a \<Rightarrow>
          if truth_v = T \<or> truth_v = B then
            (if \<not> paradox_nearby state then Answer else Answer)
          else if truth_v = N then Stand
          else Refuse)"

subsection \<open>Orchestrator\<close>

definition truth_str :: "TruthVal \<Rightarrow> string" where
  "truth_str t = (case t of T \<Rightarrow> ''T'' | F \<Rightarrow> ''F'' | B \<Rightarrow> ''B'' | N \<Rightarrow> ''N'')"

definition decision_str :: "Decision \<Rightarrow> string" where
  "decision_str d = (case d of Answer \<Rightarrow> ''Answer'' | Refuse \<Rightarrow> ''Refuse'' | Stand \<Rightarrow> ''Stand'')"

text \<open>A dictionary display \<open>{k: v, **d}\<close>: the entries of \<open>d\<close> are stored after \<open>k\<close>.\<close>

definition dict_merge :: "pydict \<Rightarrow> pydict \<Rightarrow> pydict" where
  "dict_merge d1 d2 = foldl (\<lambda>d (k, v). AList.update k v d) d1 d2"

definition noop :: Action where
  "noop = \<lparr>act_id = ''noop'', description = ''noop'', params = [], reversible = True,
           predicted_truth = T, proto_proofs = None\<rparr>"

definition decide :: "seams \<Rightarrow> real \<Rightarrow> State \<Rightarrow> Action list \<Rightarrow> error + DecisionResult" where
  "decide sm now state candidates =
     (case check_consent now state None of
        (consent_ok, consent_info) \<Rightarrow>
     (case check_apophatic state None of
        Inl e \<Rightarrow> Inl e
      | Inr (apoph_ok, apoph_info) \<Rightarrow>
          if \<not> consent_ok \<or> \<not> apoph_ok then
            Inr \<lparr>decision = Refuse, chosen_action = None, delta_E = None, grace = None,
                 truth = None,
                 proofs = \<lparr>logic = [(''apophatic_ok'', VBool apoph_ok)], ethics = [],
                            consent = dict_merge [(''ok'', VBool consent_ok)] consent_info,
                            phenomenology = [], repair_horizon = None\<rparr>,
                 ledger_id = None\<rparr>
          else
            (let ethics_info =
                   (if will_operator state = ''EXP'' \<or> stage state = ''S11'' then
                      price_externalities sm state
                        (case candidates of c # _ \<Rightarrow> c | [] \<Rightarrow> noop)
                    else []);
                 shadow_info =
                   (case candidates of
                      [] \<Rightarrow> []
                    | c # _ \<Rightarrow>
                        (case antimemory_countercontext sm state c of
                           Inl _ \<Rightarrow> []
                         | Inr d \<Rightarrow> d));
                 mv = minimal_clean_move sm state candidates;
                 action = fst mv;
                 dE = fst (snd mv);
                 G = snd (snd mv);
                 truth_v = (case action of Some a \<Rightarrow> predicted_truth a | None \<Rightarrow> N);
                 rh = (if paradox_nearby state
                       then Some (now + repair_horizon_max_days sm * 86400) else None);
                 proofs_b = \<lparr>logic = dict_merge [(''truth'', VStr (truth_str truth_v))] apoph_info,
                             ethics = ethics_info,
                             consent = dict_merge [(''ok'', VBool consent_ok)] consent_info,
                             phenomenology = shadow_info,
                             repair_horizon = rh\<rparr>;
                 d = pgl_decide state action proofs_b truth_v;
                 answer_text =
                   (case action of
                      Some a \<Rightarrow> (if d = Answer then description a else decision_str d)
                    | None \<Rightarrow> decision_str d);
                 lid = (if ledger_required sm then Some (attach_pca sm answer_text proofs_b)
                        else None)
             in Inr \<lparr>decision = d, chosen_action = action, delta_E = dE, grace = G,
                     truth = Some truth_v, proofs = proofs_b, ledger_id = lid\<rparr>)))"

section \<open>core/proofs/proof\_carrying\_advice.py\<close>

text \<open>
  \<open>blake\<close> serialises with \<open>json.dumps(obj, sort_keys=True, ensure_ascii=False)\<close> and
  hashes with BLAKE2b. The library's hash and its renderings of strings and numbers are
  parameters; the layout (sorted keys, the separators \<open>", "\<close> and \<open>": "\<close>) is modelled.
\<close>

record json_lib =
  blake2b_hex :: "string \<Rightarrow> string"
  json_string :: "string \<Rightarrow> string"
  json_int :: "int \<Rightarrow> string"
  json_float :: "pyfloat \<Rightarrow> string"

fun join :: "string \<Rightarrow> string list \<Rightarrow> string" where
  "join sep [] = []"
| "join sep [x] = x"
| "join sep (x # y # ys) = x @ sep @ join sep (y # ys)"

fun json_dumps :: "json_lib \<Rightarrow> pyval \<Rightarrow> string" where
  "json_dumps lib VNone = ''null''"
| "json_dumps lib (VBool b) = (if b then ''true'' else ''false'')"
| "json_dumps lib (VInt i) = json_int lib i"
| "json_dumps lib (VFloat r) = json_float lib r"
| "json_dumps lib (VStr s) = json_string lib s"
| "json_dumps lib (VList xs) = ''['' @ join '', '' (map (json_dumps lib) xs) @ '']''"
| "json_dumps lib (VDict kvs) =
     ''{'' @ join '', '' (map (\<lambda>(k, v). json_string lib k @ '': '' @ json_dumps lib v)
                              (sort_key fst kvs)) @ ''}''"

definition blake :: "json_lib \<Rightarrow> pyval \<Rightarrow> string" where
  "blake lib obj = blake2b_hex lib (json_dumps lib obj)"

definition FORBID_KEYS :: "string list" where
  "FORBID_KEYS = [''ground_is'', ''ultimate_name'', ''final_owner'', ''sovereign_claim'']"

definition CONSTRAINT_ONLY_pca :: "string list" where
  "CONSTRAINT_ONLY_pca = [''no_image'', ''no_totalization'', ''no_equivalence'', ''no_exchange'']"

text \<open>
  \<open>apophatic_ok\<close> lists its reasons in the order of the parameters' keys, then of the
  set \<open>CONSTRAINT_ONLY\<close>; Python leaves the iteration order of a set open, the model
  takes the order of the display. The outcome does not depend on it.
\<close>

definition apophatic_ok :: "pydict \<Rightarrow> bool \<times> string list" where
  "apophatic_ok ps =
     (let reasons =
            map (\<lambda>k. ''forbidden:'' @ k) (filter (\<lambda>k. k \<in> set FORBID_KEYS) (map fst ps))
            @ map (\<lambda>k. ''constraint_only_violation:'' @ k)
                (filter (\<lambda>k. case map_of ps k of None \<Rightarrow> False | Some v \<Rightarrow> \<not> is_enforced v)
                   CONSTRAINT_ONLY_pca)
      in (reasons = [], reasons))"

definition KNOWN_SCOPES :: "string list" where
  "KNOWN_SCOPES = [''self'', ''dyad'', ''group'', ''org'', ''public'']"

text \<open>
  \<open>consent_ok\<close>: \<open>c.get\<close> on a \<open>consent\<close> entry that is no dictionary is an
  AttributeError; the membership test on a scope that cannot be hashed (a list, a
  dictionary) is a TypeError.
\<close>

definition consent_ok :: "pydict \<Rightarrow> error + (bool \<times> string)" where
  "consent_ok ctx =
     (case dict_get_default ctx ''consent'' (VDict []) of
        VDict c \<Rightarrow>
          (if map_of c ''valid'' = Some (VBool True) then
             (case dict_get_default c ''scope'' VNone of
                VStr sc \<Rightarrow>
                  if sc \<in> set KNOWN_SCOPES then Inr (True, ''consent:validated'')
                  else Inr (False, ''consent:missing_or_invalid'')
              | VList _ \<Rightarrow> Inl TypeError
              | VDict _ \<Rightarrow> Inl TypeError
              | _ \<Rightarrow> Inr (False, ''consent:missing_or_invalid''))
           else Inr (False, ''consent:missing_or_invalid''))
      | _ \<Rightarrow> Inl AttributeError)"

record Proof =
  name :: string
  ok :: bool
  details :: pydict
  token :: string

record AdviceDraft =
  draft_id :: string
  query :: string
  plan :: pydict
  draft_params :: pydict
  draft_context :: pydict

record AdviceWithProof =
  awp_id :: string
  answer :: string
  risk :: pyfloat
  awp_proofs :: "Proof list"
  assessment :: pydict
  decided_at :: real

definition mk_proof :: "json_lib \<Rightarrow> string \<Rightarrow> bool \<Rightarrow> pydict \<Rightarrow> Proof" where
  "mk_proof lib nm okv det =
     (let tok = blake lib (VDict [(''name'', VStr nm), (''ok'', VBool okv), (''details'', VDict det)])
      in \<lparr>name = nm, ok = okv, details = det, token = tok\<rparr>)"

text \<open>
  Modelled from the spec: the collaborators of \<open>build\<close> (\<open>ExternalityPricer.assess\<close>
  with its \<open>Assessment\<close>, \<open>HarmsLedger.compute_index\<close> and \<open>penalties\<close> with
  \<open>HarmIndex\<close>, \<open>AnamnesisEngine.compute_rri\<close>) are not defined in the sources. They are
  parameters with the contracts of the spec's section 6: an assessment has a coverage, a
  rollback-ready flag and a list of externals, each with an expected cost; the harms index
  has four scores and yields an energy and a grace penalty. Their numbers are finite
  floats.
\<close>

record Assessment =
  coverage :: real
  rollback_ready :: bool
  externals :: "pydict list"

record HarmIndex =
  H :: real
  consent_debt :: real
  dignity_debt :: real
  reversibility_score :: real

record collaborators =
  ep_assess :: "pydict \<Rightarrow> Assessment"
  ep_expected_cost :: "pydict \<Rightarrow> real"
  hl_compute_index :: HarmIndex
  hl_energy_penalty :: "HarmIndex \<Rightarrow> real"
  hl_grace_penalty :: "HarmIndex \<Rightarrow> real"
  ae_compute_rri :: real
  coverage_threshold :: real

definition asdict_assessment :: "Assessment \<Rightarrow> pyval" where
  "asdict_assessment a =
     VDict [(''coverage'', VFloat (Fin (coverage a))), (''rollback_ready'', VBool (rollback_ready a)),
            (''externals'', VList (map VDict (externals a)))]"

text \<open>The dictionary \<open>build\<close> hands to the pricer: the plan, the draft's id, the recipe.\<close>

definition assess_input :: "AdviceDraft \<Rightarrow> pydict" where
  "assess_input draft =
     dict_merge (plan draft)
       [(''id'', VStr (draft_id draft)),
        (''rollback_recipe'', dict_get_default (plan draft) ''rollback_recipe'' VNone)]"

text \<open>
  \<open>build\<close> reads the clock once, for \<open>decided_at\<close>: the reading is the parameter
  \<open>now\<close>. The risk is \<open>min(1.0, 0.6*ext_cost + 0.4*hp)\<close> in float arithmetic.
\<close>

definition build ::
  "collaborators \<Rightarrow> json_lib \<Rightarrow> py_lib \<Rightarrow> real \<Rightarrow> AdviceDraft \<Rightarrow> string \<Rightarrow> error + AdviceWithProof" where
  "build cb lib py now draft ans =
     (case consent_ok (draft_context draft) of
        Inl e \<Rightarrow> Inl e
      | Inr (c_ok, c_msg) \<Rightarrow>
     (case dict_get_default (draft_context draft) ''consent'' (VDict []) of
        VDict c \<Rightarrow>
          (let p1 = mk_proof lib ''consent'' c_ok
                      [(''msg'', VStr c_msg),
                       (''context_scope'', dict_get_default c ''scope'' VNone)];
               ar = apophatic_ok (draft_params draft);
               a_ok = fst ar;
               a_reasons = snd ar;
               p2 = mk_proof lib ''apophatic'' a_ok [(''reasons'', VList (map VStr a_reasons))];
               assess = ep_assess cb (assess_input draft);
               ext_ok = (coverage assess \<ge> coverage_threshold cb \<and> rollback_ready assess);
               p3 = mk_proof lib ''externalities'' ext_ok
                      [(''coverage'', VFloat (Fin (coverage assess))),
                       (''rollback_ready'', VBool (rollback_ready assess)),
                       (''externals'', VList (map VDict (externals assess)))];
               hidx = hl_compute_index cb;
               penalties = VDict [(''energy_penalty'', VFloat (Fin (hl_energy_penalty cb hidx))),
                                  (''grace_penalty'', VFloat (Fin (hl_grace_penalty cb hidx)))];
               hp = fl_add py (Fin (hl_energy_penalty cb hidx)) (Fin (hl_grace_penalty cb hidx));
               harms_ok = flt_le hp (Fin (3 / 4));
               p4 = mk_proof lib ''harms_ledger'' harms_ok
                      [(''H'', VFloat (Fin (H hidx))),
                       (''consent_debt'', VFloat (Fin (consent_debt hidx))),
                       (''dignity_debt'', VFloat (Fin (dignity_debt hidx))),
                       (''reversibility'', VFloat (Fin (reversibility_score hidx))),
                       (''penalties'', penalties)];
               rri = ae_compute_rri cb;
               rri_ok = (rri \<ge> F0_7);
               p5 = mk_proof lib ''remembrance'' rri_ok [(''RRI'', VFloat (Fin rri))];
               ext_cost = (if externals assess \<noteq> []
                           then float_sum py (map (ep_expected_cost cb) (externals assess))
                           else Fin 0);
               rk = py_min (Fin 1)
                      (fl_add py (fl_mul py (Fin F0_6) ext_cost) (fl_mul py (Fin F0_4) hp))
           in Inr \<lparr>awp_id = draft_id draft, answer = ans, risk = rk,
                   awp_proofs = [p1, p2, p3, p4, p5],
                   assessment = [(''externalities'', asdict_assessment assess),
                                 (''harms'', VDict [(''penalties'', penalties),
                                                    (''H'', VFloat (Fin (H hidx)))])],
                   decided_at = now\<rparr>)
      | _ \<Rightarrow> Inl AttributeError))"

section \<open>apps/contemplator/shadow\_twin.py\<close>

definition WILL_INVERT :: "string \<rightharpoonup> string" where
  "WILL_INVERT =
     map_of [(''NEGATION'', ''POTENTIATION''),
             (''POTENTIATION'', ''NEGATION''),
             (''GENERATION'', ''ANNIHILATION''),
             (''EXPANSION'', ''POSSESSION''),
             (''POSSESSION'', ''EXPANSION''),
             (''CONSUMMATION'', ''ASPIRATION''),
             (''ASPIRATION'', ''CONSUMMATION''),
             (''TRANSCENSION'', ''NEGATION''),
             (''ANNIHILATION'', ''GENERATION'')]"

record TwinResult =
  primary :: AdviceWithProof
  counter :: AdviceWithProof
  selection :: string
  rationale :: pydict

text \<open>\<open>_hard_ok\<close>: the dictionary \<open>{p.name: p.ok}\<close> keeps the last proof of each name.\<close>

definition by_name :: "Proof list \<Rightarrow> (string \<rightharpoonup> bool)" where
  "by_name ps = foldl (\<lambda>m p. m(name p \<mapsto> ok p)) Map.empty ps"

definition get_bool :: "(string \<rightharpoonup> bool) \<Rightarrow> string \<Rightarrow> bool \<Rightarrow> bool" where
  "get_bool m k dflt = (case m k of None \<Rightarrow> dflt | Some b \<Rightarrow> b)"

definition hard_ok :: "AdviceWithProof \<Rightarrow> bool" where
  "hard_ok awp =
     (let by = by_name (awp_proofs awp) in
      get_bool by ''consent'' False \<and> get_bool by ''apophatic'' False
        \<and> get_bool by ''externalities'' False)"

definition counter_answer :: "string \<Rightarrow> string" where
  "counter_answer ans = ''COUNTER-MOVE: '' @ ans"

text \<open>\<open>(params.get("will") or "").upper()\<close>: a truthy value that is no string has no \<open>upper\<close>.\<close>

definition will_upper :: "py_lib \<Rightarrow> pydict \<Rightarrow> error + string" where
  "will_upper py ps =
     (case map_of ps ''will'' of
        None \<Rightarrow> Inr (str_upper py [])
      | Some v \<Rightarrow>
          if py_truthy v then (case v of VStr s \<Rightarrow> Inr (str_upper py s) | _ \<Rightarrow> Inl AttributeError)
          else Inr (str_upper py []))"

text \<open>
  \<open>float(v)\<close>: a float is returned as it is; an integer is converted to the nearest
  float (an OverflowError when it is too large); a boolean gives 1.0 or 0.0; a string is
  parsed by the library (to a float, an infinity or NaN, or a ValueError); anything else
  is a TypeError.
\<close>

fun py_float :: "py_lib \<Rightarrow> pyval \<Rightarrow> error + pyfloat" where
  "py_float py (VInt i) = (case float_of_int py i of Inl e \<Rightarrow> Inl e | Inr x \<Rightarrow> Inr (Fin x))"
| "py_float py (VFloat r) = Inr r"
| "py_float py (VBool b) = Inr (Fin (if b then 1 else 0))"
| "py_float py (VStr s) = (case float_of_str py s of None \<Rightarrow> Inl ValueError | Some r \<Rightarrow> Inr r)"
| "py_float py _ = Inl TypeError"

definition BUDGET_KEYS :: "string list" where
  "BUDGET_KEYS =
     [''privacy'', ''safety'', ''environmental'', ''reputation'', ''technical_debt'', ''compute'']"

text \<open>
  The loop over the six budget lines, on the dictionary under \<open>budget_lines\<close>: each line
  becomes \<open>max(0.9, float(line))\<close>, \<open>0.0\<close> standing for a missing line; the loop stops
  at the first value \<open>float\<close> rejects, with the lines before it already raised.
\<close>

fun raise_lines :: "py_lib \<Rightarrow> string list \<Rightarrow> pydict \<Rightarrow> pydict \<times> error option" where
  "raise_lines py [] bl = (bl, None)"
| "raise_lines py (k # ks) bl =
     (case py_float py (dict_get_default bl k (VFloat (Fin 0))) of
        Inl e \<Rightarrow> (bl, Some e)
      | Inr x \<Rightarrow> raise_lines py ks (AList.update k (VFloat (py_max (Fin F0_9) x)) bl))"

definition setdefault :: "pydict \<Rightarrow> string \<Rightarrow> pyval \<Rightarrow> pydict" where
  "setdefault d k v = (if map_of d k = None then AList.update k v d else d)"

definition DEFAULT_ROLLBACK :: string where
  "DEFAULT_ROLLBACK = ''rollback: kill-switch + throttle + data quarantine''"

text \<open>
  \<open>_invert\<close> copies the plan one level deep: the dictionary under \<open>budget_lines\<close>, when
  the draft has one, is shared with the draft, and the loop writes into it. The model
  returns the draft as it is after the call, and the counter-draft or the error.
\<close>

definition invert :: "py_lib \<Rightarrow> AdviceDraft \<Rightarrow> AdviceDraft \<times> (error + AdviceDraft)" where
  "invert py draft =
     (case will_upper py (draft_params draft) of
        Inl e \<Rightarrow> (draft, Inl e)
      | Inr w \<Rightarrow>
          (let params1 = (case WILL_INVERT w of
                            Some v \<Rightarrow> AList.update ''will'' (VStr v) (draft_params draft)
                          | None \<Rightarrow> draft_params draft);
               shared = (map_of (plan draft) ''budget_lines'' \<noteq> None);
               plan1 = setdefault (plan draft) ''budget_lines'' (VDict [])
           in case dict_get_default plan1 ''budget_lines'' VNone of
                VDict bl \<Rightarrow>
                  (case raise_lines py BUDGET_KEYS bl of
                     (bl', err) \<Rightarrow>
                       (let draft' = (if shared
                                      then draft\<lparr>plan := AList.update ''budget_lines'' (VDict bl') (plan draft)\<rparr>
                                      else draft);
                            plan2 = AList.update ''budget_lines'' (VDict bl') plan1
                        in case err of
                             Some e \<Rightarrow> (draft', Inl e)
                           | None \<Rightarrow>
                               (draft',
                                Inr \<lparr>draft_id = draft_id draft @ '':counter'',
                                     query = query draft,
                                     plan = setdefault plan2 ''rollback_recipe'' (VStr DEFAULT_ROLLBACK),
                                     draft_params = params1,
                                     draft_context = draft_context draft\<rparr>)))
              | _ \<Rightarrow> (draft, Inl AttributeError)))"

text \<open>
  \<open>contemplate\<close> builds the primary, inverts the draft, builds the counter: the two
  clock readings of the two builds are \<open>now1\<close> and \<open>now2\<close>.
\<close>

definition contemplate ::
  "collaborators \<Rightarrow> json_lib \<Rightarrow> py_lib \<Rightarrow> real \<Rightarrow> real \<Rightarrow> AdviceDraft \<Rightarrow> string \<Rightarrow> error + TwinResult" where
  "contemplate cb lib py now1 now2 draft primary_answer =
     (case build cb lib py now1 draft primary_answer of
        Inl e \<Rightarrow> Inl e
      | Inr primary_awp \<Rightarrow>
     (case snd (invert py draft) of
        Inl e \<Rightarrow> Inl e
      | Inr counter_draft \<Rightarrow>
     (case build cb lib py now2 counter_draft (counter_answer primary_answer) of
        Inl e \<Rightarrow> Inl e
      | Inr counter_awp \<Rightarrow>
          (let prim_ok = hard_ok primary_awp;
               cnt_ok = hard_ok counter_awp;
               pick = (if prim_ok \<and> \<not> cnt_ok then ''primary''
                       else if cnt_ok \<and> \<not> prim_ok then ''counter''
                       else if flt_le (risk primary_awp) (risk counter_awp) then ''primary''
                       else ''counter'');
               rat = [(''hard_ok'', VDict [(''primary'', VBool prim_ok), (''counter'', VBool cnt_ok)]),
                      (''risk'', VDict [(''primary'', VFloat (risk primary_awp)),
                                        (''counter'', VFloat (risk counter_awp))]),
                      (''note'', VStr ''selected lower-risk among gates-passing candidates'')]
           in Inr \<lparr>primary = primary_awp, counter = counter_awp, selection = pick,
                   rationale = rat\<rparr>))))"

section \<open>Notions used in the statements\<close>

text \<open>
  The floats other than NaN are linearly ordered: \<open>fkey\<close> places them, the infinities
  below and above the finite ones. The order of the selection loop is the lexicographic
  order of the keys \<open>(EK, -G, E)\<close>; the order of the fallback sort is that of the keys
  \<open>(-G, E)\<close>.
\<close>

fun fkey :: "pyfloat \<Rightarrow> int \<times> real" where
  "fkey NegInf = (- 1, 0)"
| "fkey (Fin x) = (0, x)"
| "fkey PosInf = (1, 0)"
| "fkey NaN = (2, 0)"

definition skey :: "scored \<Rightarrow> (int \<times> real) \<times> real \<times> real" where
  "skey s = (case s of (a, EK, E, G) \<Rightarrow> (fkey EK, - G, E))"

text \<open>
  The effective cost of a candidate is the float product of its raw cost and its kernel
  weight; \<open>lex_le a c\<close> says that \<open>a\<close> comes no later than \<open>c\<close> in the order of the
  selection: lower effective cost, or the same and higher coherence, or both the same and
  a raw cost no higher.
\<close>

definition eff_cost :: "seams \<Rightarrow> State \<Rightarrow> Action \<Rightarrow> pyfloat" where
  "eff_cost sm st a = fl_mul (pylib sm) (Fin (energy_E sm st a)) (Fin (kernel_weight sm st a))"

definition lex_le :: "seams \<Rightarrow> State \<Rightarrow> Action \<Rightarrow> Action \<Rightarrow> bool" where
  "lex_le sm st a c =
     (flt_lt (eff_cost sm st a) (eff_cost sm st c) \<or>
      (flt_eq (eff_cost sm st a) (eff_cost sm st c) \<and>
       (grace_G sm st a > grace_G sm st c \<or>
        (grace_G sm st a = grace_G sm st c \<and> energy_E sm st a \<le> energy_E sm st c))))"

definition coh_le :: "seams \<Rightarrow> State \<Rightarrow> Action \<Rightarrow> Action \<Rightarrow> bool" where
  "coh_le sm st a c =
     (grace_G sm st a > grace_G sm st c \<or>
      (grace_G sm st a = grace_G sm st c \<and> energy_E sm st a \<le> energy_E sm st c))"

definition accept :: "seams \<Rightarrow> State \<Rightarrow> Action \<Rightarrow> move" where
  "accept sm st a = (Some a, Some (energy_E sm st a), Some (grace_G sm st a))"

definition ckey :: "scored \<Rightarrow> real \<times> real" where
  "ckey = (\<lambda>(a, EK, E, G). (- G, E))"

text \<open>The budget lines of a draft: the dictionary under \<open>budget_lines\<close> of its plan.\<close>

definition budget_lines_of :: "AdviceDraft \<Rightarrow> pydict" where
  "budget_lines_of d = (case map_of (plan d) ''budget_lines'' of Some (VDict bl) \<Rightarrow> bl | _ \<Rightarrow> [])"

text \<open>The names of the proofs \<open>build\<close> makes, and of the three that are hard gates.\<close>

definition GATE_NAMES :: "string list" where
  "GATE_NAMES = [''consent'', ''apophatic'', ''externalities'']"

definition PROOF_NAMES :: "string list" where
  "PROOF_NAMES = [''consent'', ''apophatic'', ''externalities'', ''harms_ledger'', ''remembrance'']"

section \<open>Example inputs\<close>

text \<open>
  A library for the examples, whose arithmetic needs no rounding: exact results, no
  string accepted by \<open>float\<close>, and \<open>str.upper\<close> as it is on ASCII strings.
\<close>

definition upper_char :: "char \<Rightarrow> char" where
  "upper_char c =
     (if CHR ''a'' \<le> c \<and> c \<le> CHR ''z'' then char_of (of_char c - (32::nat)) else c)"

definition upper :: "string \<Rightarrow> string" where
  "upper s = map upper_char s"

definition demo_py :: py_lib where
  "demo_py =
     \<lparr>round_float = (\<lambda>x. x), float_sum = (\<lambda>xs. Fin (sum_list xs)),
      float_of_str = (\<lambda>s. None), str_upper = upper\<rparr>"

subsection \<open>For the planner\<close>

definition mk_action :: "string \<Rightarrow> Action" where
  "mk_action i = \<lparr>act_id = i, description = i, params = [], reversible = True,
                  predicted_truth = T, proto_proofs = None\<rparr>"

text \<open>
  Thresholds at the documented defaults (move threshold \<open>-0.05\<close>, coherence floor
  \<open>0.55\<close>), and scores fixed per action id: \<open>x\<close> has raw cost \<open>-0.04\<close>, weight
  \<open>2.5\<close>, coherence \<open>0.9\<close>; \<open>y\<close> has \<open>-0.1\<close>, \<open>1\<close>, \<open>0.6\<close>; every other action
  has \<open>-1\<close>, \<open>1\<close>, \<open>0.1\<close>. The products of the example library are those of the
  floats: \<open>-0.04 * 2.5 == -0.1\<close>.
\<close>

definition demo_seams :: seams where
  "demo_seams =
     \<lparr>MIN_DELTA_E = - (5 / 100), MIN_GRACE = 55 / 100, ledger_required = False,
      repair_horizon_max_days = 14,
      energy_E = (\<lambda>st a. if act_id a = ''x'' then - (4 / 100)
                           else if act_id a = ''y'' then - (1 / 10) else - 1),
      grace_G = (\<lambda>st a. if act_id a = ''x'' then 9 / 10
                          else if act_id a = ''y'' then 6 / 10 else 1 / 10),
      kernel_weight = (\<lambda>st a. if act_id a = ''x'' then 5 / 2 else 1),
      price_externalities = (\<lambda>st a. []),
      antimemory_countercontext = (\<lambda>st a. Inr []),
      attach_pca = (\<lambda>txt pb. ''ledger''),
      pylib = demo_py\<rparr>"

text \<open>The state of the module's smoke test, its ticket issued at time 0 for a day.\<close>

definition demo_state :: State where
  "demo_state =
     \<lparr>context_st = [(''topic'', VStr ''scaling_feature_X'')], stage = ''S5'',
      will_operator = ''EXP'',
      consent_tickets = [\<lparr>holder = ''user'', scope_dc = ''org'', ttl_seconds_dc = 86400,
                          issued_at_dc = 0, terms = []\<rparr>],
      paradox_nearby = False\<rparr>"

definition demo_candidates :: "Action list" where
  "demo_candidates = [mk_action ''x'', mk_action ''y'', mk_action ''z'']"

text \<open>
  Two candidates whose products differ as real numbers and agree as floats: \<open>a\<close> has raw
  cost \<open>-(1 + 2 ** -52)\<close>, weight \<open>1 + 2 ** -52\<close>, coherence \<open>0.75\<close>; \<open>b\<close> has raw
  cost \<open>-(1 + 2 ** -51)\<close>, weight \<open>1\<close>, coherence \<open>1\<close>. The library of floats is
  left open.
\<close>

definition tie_seams :: "py_lib \<Rightarrow> seams" where
  "tie_seams py =
     \<lparr>MIN_DELTA_E = - (5 / 100), MIN_GRACE = 55 / 100, ledger_required = False,
      repair_horizon_max_days = 14,
      energy_E = (\<lambda>st a. if act_id a = ''a'' then - (1 + 1 / 2 ^ 52) else - (1 + 1 / 2 ^ 51)),
      grace_G = (\<lambda>st a. if act_id a = ''a'' then 3 / 4 else 1),
      kernel_weight = (\<lambda>st a. if act_id a = ''a'' then 1 + 1 / 2 ^ 52 else 1),
      price_externalities = (\<lambda>st a. []),
      antimemory_countercontext = (\<lambda>st a. Inr []),
      attach_pca = (\<lambda>txt pb. ''ledger''),
      pylib = py\<rparr>"

text \<open>A state whose only ticket ran out at time 60.\<close>

definition expired_state :: State where
  "expired_state =
     \<lparr>context_st = [], stage = ''S5'', will_operator = ''EXP'',
      consent_tickets = [\<lparr>holder = ''user'', scope_dc = ''org'', ttl_seconds_dc = 60,
                          issued_at_dc = 0, terms = []\<rparr>],
      paradox_nearby = False\<rparr>"

text \<open>The ticket of \<open>test_consent_checker\<close>: group scope, ten seconds, two invocations.\<close>

definition demo_ticket :: ConsentTicket where
  "demo_ticket = \<lparr>scope = ''group'', issued_at = Fin 0, ttl_seconds = 10, max_invocations = 2,
                   invocations = 0\<rparr>"

text \<open>A ticket issued at time \<open>2 ** 53\<close> for three seconds.\<close>

definition late_ticket :: ConsentTicket where
  "late_ticket = \<lparr>scope = ''group'', issued_at = Fin (2 ^ 53), ttl_seconds = 3,
                   max_invocations = 1, invocations = 0\<rparr>"

text \<open>
  A ticket built with more invocations than it allows, and one whose time to live is
  \<open>2 ** 1024\<close> seconds.
\<close>

definition spent_ticket :: ConsentTicket where
  "spent_ticket = \<lparr>scope = ''group'', issued_at = Fin 0, ttl_seconds = 10, max_invocations = 1,
                    invocations = 3\<rparr>"

definition endless_ticket :: ConsentTicket where
  "endless_ticket = \<lparr>scope = ''group'', issued_at = Fin 0, ttl_seconds = 2 ^ 1024,
                      max_invocations = 1, invocations = 0\<rparr>"

subsection \<open>For the shadow twin: the draft of apps/contemplator/examples.py\<close>

definition demo_draft :: AdviceDraft where
  "demo_draft =
     \<lparr>draft_id = ''plan:001'',
      query = ''Should we enable autonomous inbox triage for the org?'',
      plan = [(''data_kind'', VStr ''personal''), (''deployment_scope'', VStr ''org''),
              (''automation_level'', VStr ''agentic''), (''environmental'', VStr ''med''),
              (''budget_lines'',
               VDict [(''privacy'', VFloat (Fin F0_9)), (''safety'', VFloat (Fin F0_8)),
                      (''technical_debt'', VFloat (Fin F0_6))])],
      draft_params = [(''will'', VStr ''Expansion''), (''no_image'', VBool True)],
      draft_context = [(''consent'', VDict [(''valid'', VBool True), (''scope'', VStr ''org'')])]\<rparr>"

text \<open>The counter-draft \<open>_invert\<close> makes of it.\<close>

definition demo_counter :: AdviceDraft where
  "demo_counter =
     \<lparr>draft_id = ''plan:001:counter'',
      query = ''Should we enable autonomous inbox triage for the org?'',
      plan = [(''data_kind'', VStr ''personal''), (''deployment_scope'', VStr ''org''),
              (''automation_level'', VStr ''agentic''), (''environmental'', VStr ''med''),
              (''budget_lines'',
               VDict [(''privacy'', VFloat (Fin F0_9)), (''safety'', VFloat (Fin F0_9)),
                      (''technical_debt'', VFloat (Fin F0_9)), (''environmental'', VFloat (Fin F0_9)),
                      (''reputation'', VFloat (Fin F0_9)), (''compute'', VFloat (Fin F0_9))]),
              (''rollback_recipe'', VStr DEFAULT_ROLLBACK)],
      draft_params = [(''will'', VStr ''POSSESSION''), (''no_image'', VBool True)],
      draft_context = [(''consent'', VDict [(''valid'', VBool True), (''scope'', VStr ''org'')])]\<rparr>"

text \<open>The counter-draft \<open>_invert\<close> makes of the counter-draft.\<close>

definition demo_counter2 :: AdviceDraft where
  "demo_counter2 =
     \<lparr>draft_id = ''plan:001:counter:counter'',
      query = ''Should we enable autonomous inbox triage for the org?'',
      plan = [(''data_kind'', VStr ''personal''), (''deployment_scope'', VStr ''org''),
              (''automation_level'', VStr ''agentic''), (''environmental'', VStr ''med''),
              (''budget_lines'',
               VDict [(''privacy'', VFloat (Fin F0_9)), (''safety'', VFloat (Fin F0_9)),
                      (''technical_debt'', VFloat (Fin F0_9)), (''environmental'', VFloat (Fin F0_9)),
                      (''reputation'', VFloat (Fin F0_9)), (''compute'', VFloat (Fin F0_9))]),
              (''rollback_recipe'', VStr DEFAULT_ROLLBACK)],
      draft_params = [(''will'', VStr ''EXPANSION''), (''no_image'', VBool True)],
      draft_context = [(''consent'', VDict [(''valid'', VBool True), (''scope'', VStr ''org'')])]\<rparr>"

text \<open>A draft with a budget line outside the six the code names, at \<open>0.5\<close>.\<close>

definition odd_draft :: AdviceDraft where
  "odd_draft =
     \<lparr>draft_id = ''plan:002'', query = ''q'',
      plan = [(''budget_lines'', VDict [(''legal'', VFloat (Fin (1 / 2)))])],
      draft_params = [],
      draft_context = [(''consent'', VDict [(''valid'', VBool True), (''scope'', VStr ''org'')])]\<rparr>"

definition odd_counter :: AdviceDraft where
  "odd_counter =
     \<lparr>draft_id = ''plan:002:counter'', query = ''q'',
      plan = [(''budget_lines'',
               VDict [(''legal'', VFloat (Fin (1 / 2))), (''privacy'', VFloat (Fin F0_9)),
                      (''safety'', VFloat (Fin F0_9)), (''environmental'', VFloat (Fin F0_9)),
                      (''reputation'', VFloat (Fin F0_9)), (''technical_debt'', VFloat (Fin F0_9)),
                      (''compute'', VFloat (Fin F0_9))]),
              (''rollback_recipe'', VStr DEFAULT_ROLLBACK)],
      draft_params = [],
      draft_context = [(''consent'', VDict [(''valid'', VBool True), (''scope'', VStr ''org'')])]\<rparr>"

definition demo_lib :: json_lib where
  "demo_lib = \<lparr>blake2b_hex = (\<lambda>s. s), json_string = (\<lambda>s. s), json_int = (\<lambda>i. ''0''),
               json_float = (\<lambda>r. ''0.0'')\<rparr>"

text \<open>
  Collaborators for the example: the pricer reports full coverage when the safety line is
  at least \<open>0.9\<close> (the line's value otherwise) and is rollback-ready when the plan holds
  a recipe; no externals, no harms, full remembrance.
\<close>

definition demo_assess :: "pydict \<Rightarrow> Assessment" where
  "demo_assess pl =
     \<lparr>coverage =
        (case map_of pl ''budget_lines'' of
           Some (VDict bl) \<Rightarrow>
             (case map_of bl ''safety'' of
                Some (VFloat (Fin r)) \<Rightarrow> (if r \<ge> F0_9 then 1 else r)
              | _ \<Rightarrow> 0)
         | _ \<Rightarrow> 0),
      rollback_ready = (case map_of pl ''rollback_recipe'' of Some (VStr r) \<Rightarrow> r \<noteq> [] | _ \<Rightarrow> False),
      externals = []\<rparr>"

definition demo_collab :: collaborators where
  "demo_collab =
     \<lparr>ep_assess = demo_assess, ep_expected_cost = (\<lambda>e. 0),
      hl_compute_index = \<lparr>H = 0, consent_debt = 0, dignity_debt = 0, reversibility_score = 1\<rparr>,
      hl_energy_penalty = (\<lambda>h. 0), hl_grace_penalty = (\<lambda>h. 0),
      ae_compute_rri = 1, coverage_threshold = 95 / 100\<rparr>"

definition demo_answer :: string where
  "demo_answer = ''Enable, but gate with reversible micro-moves.''"

section \<open>Properties\<close>

subsection \<open>Nested forbidden keys (C2)\<close>

lemma flatten_nested_params:
  "flatten_dict nested_params [] Map.empty = [''deep.deeper.ground_is'' \<mapsto> VStr ''hidden here'']"
  by (simp add: nested_params_def)

lemma admissible_invalid_params1: "admissible [] invalid_params1 = False"
  by (simp add: admissible_def invalid_params1_def FORBIDDEN_KEYS_def)

text \<open>
  What the check does catch: a forbidden key at the top level of the parameters, with a
  value that is no dictionary (in a dictionary without the empty key, under which
  \<open>_flatten_dict\<close> adds no prefix). Keys written under a prefix contain a dot, and no
  forbidden key does.
\<close>

lemma flatten_dict_prefixed:
  "prefix \<noteq> [] \<Longrightarrow> CHR ''.'' \<notin> set k \<Longrightarrow> flatten_dict d prefix m k = m k"
proof (induction d prefix m rule: flatten_dict.induct)
  case (1 prefix result)
  then show ?case by simp
next
  case (2 k' v rest prefix result)
  let ?key = "prefix @ ''.'' @ k'"
  let ?r1 = "case v of VDict d \<Rightarrow> flatten_dict d ?key result | _ \<Rightarrow> result(?key \<mapsto> v)"
  have kk: "?key \<noteq> k" using "2.prems"(2) by auto
  have ih2: "flatten_dict rest prefix ?r1 k = ?r1 k"
    using "2.IH"(2)[of ?key] "2.prems" by simp
  have r1: "?r1 k = result k"
  proof (cases "\<exists>d'. v = VDict d'")
    case True
    then obtain d' where v: "v = VDict d'" by (elim exE)
    have "flatten_dict d' ?key result k = result k"
      using "2.IH"(1)[of ?key d'] "2.prems" v by simp
    then show ?thesis by (simp add: v)
  next
    case False
    then have "?r1 = result(?key \<mapsto> v)" by (cases v) simp_all
    then show ?thesis using kk by simp
  qed
  have "flatten_dict ((k', v) # rest) prefix result = flatten_dict rest prefix ?r1"
    using "2.prems"(1) by (simp add: Let_def cong: pyval.case_cong)
  with ih2 r1 show ?case by simp
qed

lemma flatten_dict_absent:
  assumes "k \<notin> fst ` set d" "[] \<notin> fst ` set d" "CHR ''.'' \<notin> set k"
  shows "flatten_dict d [] m k = m k"
  using assms
proof (induction d arbitrary: m)
  case Nil
  then show ?case by simp
next
  case (Cons kv rest)
  obtain k' v where kv: "kv = (k', v)" by (cases kv)
  from Cons.prems kv have k': "k' \<noteq> k" "k' \<noteq> []" by auto
  let ?r1 = "case v of VDict d \<Rightarrow> flatten_dict d k' m | _ \<Rightarrow> m(k' \<mapsto> v)"
  have r1: "?r1 k = m k"
  proof (cases "\<exists>d'. v = VDict d'")
    case True
    then obtain d' where v: "v = VDict d'" by (elim exE)
    show ?thesis using flatten_dict_prefixed[OF k'(2) Cons.prems(3)] by (simp add: v)
  next
    case False
    then have "?r1 = m(k' \<mapsto> v)" by (cases v) simp_all
    then show ?thesis using k'(1) by simp
  qed
  have "flatten_dict rest [] ?r1 k = ?r1 k"
    using Cons.IH[of ?r1] Cons.prems by simp
  with r1 show ?case by (simp add: kv Let_def)
qed

lemma flatten_dict_top_level:
  assumes "map_of d k = Some v" "\<forall>x. v \<noteq> VDict x" "distinct (map fst d)"
    "[] \<notin> fst ` set d" "CHR ''.'' \<notin> set k"
  shows "flatten_dict d [] m k = Some v"
  using assms
proof (induction d arbitrary: m)
  case Nil
  then show ?case by simp
next
  case (Cons kv rest)
  obtain k' v' where kv: "kv = (k', v')" by (cases kv)
  from Cons.prems(4) kv have ne: "k' \<noteq> []" "[] \<notin> fst ` set rest" by auto
  from Cons.prems(3) kv have di: "k' \<notin> fst ` set rest" "distinct (map fst rest)" by auto
  let ?r1 = "case v' of VDict d \<Rightarrow> flatten_dict d k' m | _ \<Rightarrow> m(k' \<mapsto> v')"
  have step: "flatten_dict (kv # rest) [] m = flatten_dict rest [] ?r1"
    by (simp add: kv Let_def)
  show ?case
  proof (cases "k' = k")
    case True
    with Cons.prems(1) kv have v': "v' = v" by simp
    with Cons.prems(2) have "?r1 = m(k' \<mapsto> v)" by (cases v) simp_all
    then have "?r1 k = Some v" using True by simp
    moreover have "flatten_dict rest [] ?r1 k = ?r1 k"
      using flatten_dict_absent[of k rest ?r1] di(1) True ne(2) Cons.prems(5) by simp
    ultimately show ?thesis using step by simp
  next
    case False
    with Cons.prems(1) kv have "map_of rest k = Some v" by simp
    from Cons.IH[OF this Cons.prems(2) di(2) ne(2) Cons.prems(5)]
    show ?thesis using step by simp
  qed
qed

lemma no_dot_forbidden: "k \<in> set FORBIDDEN_KEYS \<Longrightarrow> CHR ''.'' \<notin> set k"
  by (auto simp: FORBIDDEN_KEYS_def)

lemma admissible_top_level_forbidden:
  assumes "k \<in> set FORBIDDEN_KEYS"
    and "map_of ps k = Some v" "\<forall>x. v \<noteq> VDict x"
    and "distinct (map fst ps)" "[] \<notin> fst ` set ps"
  shows "\<not> admissible ctx ps"
proof -
  have "flatten_dict ps [] Map.empty k = Some v"
    using flatten_dict_top_level[OF assms(2,3,4,5) no_dot_forbidden[OF assms(1)]] .
  then have "(flatten_dict ctx [] Map.empty ++ flatten_dict ps [] Map.empty) k \<noteq> None"
    by simp
  with assms(1) show ?thesis
    by (auto simp: admissible_def Let_def list_ex_iff)
qed

text \<open>
  C2. The claim: a forbidden key at any nesting depth makes \<open>admissible\<close> return False.
  The code looks the forbidden keys up in the flattened dictionary, whose keys are the
  dotted paths: the nested \<open>ground_is\<close> of \<open>test_guard\<close> is stored under
  \<open>deep.deeper.ground_is\<close>, no forbidden key is found, and the result is True.
\<close>

theorem admissible_nested_forbidden_key:
  "admissible [] nested_params = True"
  by (simp add: admissible_def nested_params_def FORBIDDEN_KEYS_def CONSTRAINT_ONLY_def)

subsection \<open>Floats\<close>

lemma to_float_not_NaN [simp]: "to_float py x \<noteq> NaN"
  by (simp add: to_float_def Let_def)

lemma fl_mul_Fin_not_NaN [simp]: "fl_mul py (Fin x) (Fin y) \<noteq> NaN"
  by simp

lemma fkey_inj [simp]: "fkey a = fkey b \<longleftrightarrow> a = b"
  by (cases a; cases b) simp_all

lemma flt_lt_fkey: "a \<noteq> NaN \<Longrightarrow> b \<noteq> NaN \<Longrightarrow> flt_lt a b \<longleftrightarrow> fkey a < fkey b"
  by (cases a; cases b) (simp_all add: less_prod_def)

lemma flt_eq_fkey: "a \<noteq> NaN \<Longrightarrow> flt_eq a b \<longleftrightarrow> fkey a = fkey b"
  by (simp add: flt_eq_def)

lemma FLOAT_MAX_large: "2 ^ 1023 \<le> FLOAT_MAX"
proof -
  have "(2::real) ^ 971 \<le> 2 ^ 1023" by (rule power_increasing) simp_all
  moreover have "(2::real) ^ 1024 = 2 * 2 ^ 1023" by simp
  ultimately show ?thesis unfolding FLOAT_MAX_def by linarith
qed

lemma to_float_round:
  "round_float py x = y \<Longrightarrow> \<bar>y\<bar> \<le> FLOAT_MAX \<Longrightarrow> to_float py x = Fin y"
  by (auto simp: to_float_def Let_def)

text \<open>With the library of the examples a sum or product in the floats' range is exact.\<close>

lemma to_float_demo: "\<bar>x\<bar> \<le> 2 ^ 1023 \<Longrightarrow> to_float demo_py x = Fin x"
  using FLOAT_MAX_large by (auto simp: to_float_def demo_py_def Let_def)

subsection \<open>The solver's selection (C5)\<close>

lemma lex3_less:
  "((k1::'k::linorder), - (g1::real), (e1::real)) < (k2, - g2, e2) \<longleftrightarrow>
     k1 < k2 \<or> (k1 = k2 \<and> (g2 < g1 \<or> (g1 = g2 \<and> e1 < e2)))"
  by (auto simp: less_prod_def)

lemma lex3_le:
  "((k1::'k::linorder), - (g1::real), (e1::real)) \<le> (k2, - g2, e2) \<longleftrightarrow>
     k1 < k2 \<or> (k1 = k2 \<and> (g2 < g1 \<or> (g1 = g2 \<and> e1 \<le> e2)))"
  by (auto simp: less_eq_prod_def less_prod_def)

lemma improves_skey:
  "fst (snd x) \<noteq> NaN \<Longrightarrow> fst (snd s) \<noteq> NaN \<Longrightarrow> improves x (Some s) \<longleftrightarrow> skey x < skey s"
proof -
  obtain a EK E G where x: "x = (a, EK, E, G)" by (cases x)
  obtain b EK' E' G' where s: "s = (b, EK', E', G')" by (cases s)
  assume n: "fst (snd x) \<noteq> NaN" "fst (snd s) \<noteq> NaN"
  then have n': "EK \<noteq> NaN" "EK' \<noteq> NaN" by (simp_all add: x s)
  have "skey x < skey s \<longleftrightarrow>
        fkey EK < fkey EK' \<or> (fkey EK = fkey EK' \<and> (G' < G \<or> (G = G' \<and> E < E')))"
    unfolding x s skey_def prod.case by (rule lex3_less)
  then show ?thesis
    by (simp add: x s flt_lt_fkey[OF n'] flt_eq_fkey[OF n'(1)])
qed

lemma select_loop_Some:
  "\<forall>x\<in>insert s (set xs). fst (snd x) \<noteq> NaN \<Longrightarrow>
   \<exists>r. select_loop xs (Some s) = Some r \<and> r \<in> insert s (set xs) \<and> (\<forall>x\<in>insert s (set xs). skey r \<le> skey x)"
proof (induction xs arbitrary: s)
  case Nil
  then show ?case by simp
next
  case (Cons y ys)
  from Cons.prems have ny: "fst (snd y) \<noteq> NaN" and ns: "fst (snd s) \<noteq> NaN"
    and nys: "\<forall>x\<in>set ys. fst (snd x) \<noteq> NaN" by auto
  show ?case
  proof (cases "improves y (Some s)")
    case True
    have "\<forall>x\<in>insert y (set ys). fst (snd x) \<noteq> NaN" using ny nys by auto
    from Cons.IH[OF this] obtain r where r: "select_loop ys (Some y) = Some r" "r \<in> insert y (set ys)"
      "\<forall>x\<in>insert y (set ys). skey r \<le> skey x"
      by blast
    have "skey r \<le> skey y" using r(3) by simp
    moreover have "skey y < skey s" using True ny ns by (simp add: improves_skey)
    ultimately have "skey r \<le> skey s" by simp
    with r True show ?thesis by auto
  next
    case False
    have "\<forall>x\<in>insert s (set ys). fst (snd x) \<noteq> NaN" using ns nys by auto
    from Cons.IH[OF this] obtain r where r: "select_loop ys (Some s) = Some r" "r \<in> insert s (set ys)"
      "\<forall>x\<in>insert s (set ys). skey r \<le> skey x"
      by blast
    have "skey s \<le> skey y" using False ny ns by (simp add: improves_skey)
    moreover have "skey r \<le> skey s" using r(3) by simp
    ultimately have "skey r \<le> skey y" by simp
    with r False show ?thesis by auto
  qed
qed

lemma select_loop_None:
  assumes "xs \<noteq> []" "\<forall>x\<in>set xs. fst (snd x) \<noteq> NaN"
  shows "\<exists>r. select_loop xs None = Some r \<and> r \<in> set xs \<and> (\<forall>x\<in>set xs. skey r \<le> skey x)"
proof (cases xs)
  case Nil
  with assms(1) show ?thesis by simp
next
  case (Cons y ys)
  have "improves y None" by (cases y) simp
  then have "select_loop xs None = select_loop ys (Some y)" using Cons by simp
  moreover have "\<forall>x\<in>insert y (set ys). fst (snd x) \<noteq> NaN" using assms(2) Cons by simp
  ultimately show ?thesis using select_loop_Some[of y ys] Cons by auto
qed

lemma sort_key_head:
  "sort_key f xs = y # ys \<Longrightarrow> y \<in> set xs \<and> (\<forall>x\<in>set xs. f y \<le> f x)"
proof -
  assume a: "sort_key f xs = y # ys"
  have "set (sort_key f xs) = set xs" by simp
  then have s: "set xs = insert y (set ys)" using a by simp
  have "sorted (map f (sort_key f xs))" by simp
  then have "sorted (f y # map f ys)" using a by simp
  then have "\<forall>x\<in>set ys. f y \<le> f x" by simp
  with s show ?thesis by auto
qed

lemma score_not_NaN: "fst (snd (score sm st a)) \<noteq> NaN"
  by (simp add: score_def Let_def)

lemma skey_score_le: "skey (score sm st a) \<le> skey (score sm st c) \<longleftrightarrow> lex_le sm st a c"
proof -
  have n: "eff_cost sm st a \<noteq> NaN" "eff_cost sm st c \<noteq> NaN"
    by (simp_all add: eff_cost_def)
  have "skey (score sm st a) = (fkey (eff_cost sm st a), - grace_G sm st a, energy_E sm st a)"
    and "skey (score sm st c) = (fkey (eff_cost sm st c), - grace_G sm st c, energy_E sm st c)"
    by (simp_all add: skey_def score_def eff_cost_def Let_def)
  then show ?thesis
    unfolding lex_le_def by (simp only: lex3_le flt_lt_fkey[OF n] flt_eq_fkey[OF n(1)])
qed

lemma ckey_score_le: "ckey (score sm st a) \<le> ckey (score sm st c) \<longleftrightarrow> coh_le sm st a c"
  by (auto simp: ckey_def score_def coh_le_def less_eq_prod_def Let_def)

lemma mcm_unfold:
  assumes "select_loop (map (score sm st) cands) None = Some (score sm st b)"
  shows "minimal_clean_move sm st cands =
     (if energy_E sm st b \<ge> MIN_DELTA_E sm then (None, None, None)
      else if grace_G sm st b < MIN_GRACE sm then
        (case sort_key ckey (filter (\<lambda>s. fst (snd (snd s)) < MIN_DELTA_E sm) (map (score sm st) cands)) of
           [] \<Rightarrow> (None, None, None)
         | s2 # _ \<Rightarrow> if snd (snd (snd s2)) \<ge> MIN_GRACE sm then (Some (fst s2), Some (fst (snd (snd s2))), Some (snd (snd (snd s2)))) else (None, None, None))
      else accept sm st b)"
proof -
  have f: "(\<lambda>(a, EK, E, G). E < MIN_DELTA_E sm) = (\<lambda>s. fst (snd (snd s)) < MIN_DELTA_E sm)"
    by (auto simp: fun_eq_iff)
  show ?thesis
    unfolding minimal_clean_move_def Let_def assms ckey_def[symmetric] f
    by (auto simp: score_def accept_def Let_def split: list.splits)
qed

lemma minimal_clean_move_empty: "minimal_clean_move sm st [] = (None, None, None)"
  by (simp add: minimal_clean_move_def)

text \<open>
  C5 (as amended). The pick of the selection loop is a lexicographic optimum of the
  candidates: least effective cost (the float product of raw cost and kernel weight), then
  highest coherence, then least raw cost. It is returned when its raw cost is below the
  move threshold and its coherence is at least the floor; nothing is returned when its raw
  cost is not below the threshold. When it clears the threshold and misses the floor, the
  result is the candidate of highest coherence (then least raw cost) among those below the
  cost threshold, if that one reaches the floor, whatever its effective cost, and nothing
  otherwise.
\<close>

theorem minimal_clean_move_lexicographic:
  assumes ne: "candidates \<noteq> []"
  shows "\<exists>b\<in>set candidates. (\<forall>c\<in>set candidates. lex_le sm st b c) \<and>
    (if energy_E sm st b \<ge> MIN_DELTA_E sm then
       minimal_clean_move sm st candidates = (None, None, None)
     else if grace_G sm st b \<ge> MIN_GRACE sm then
       minimal_clean_move sm st candidates = accept sm st b
     else
       (\<exists>a2\<in>set candidates. energy_E sm st a2 < MIN_DELTA_E sm \<and>
          (\<forall>c\<in>set candidates. energy_E sm st c < MIN_DELTA_E sm \<longrightarrow> coh_le sm st a2 c) \<and>
          minimal_clean_move sm st candidates =
            (if grace_G sm st a2 \<ge> MIN_GRACE sm then accept sm st a2 else (None, None, None))))"
proof -
  let ?sc = "map (score sm st) candidates"
  have "?sc \<noteq> []" using ne by simp
  moreover have "\<forall>x\<in>set ?sc. fst (snd x) \<noteq> NaN" by (auto simp: score_not_NaN)
  ultimately obtain r where
    r: "select_loop ?sc None = Some r" "r \<in> set ?sc" "\<forall>x\<in>set ?sc. skey r \<le> skey x"
    using select_loop_None[of ?sc] by blast
  from r(2) obtain b where b: "b \<in> set candidates" "r = score sm st b" by auto
  have lexmin: "\<forall>c\<in>set candidates. lex_le sm st b c"
    using r(3) b(2) by (auto simp: skey_score_le)
  note u = mcm_unfold[OF r(1)[unfolded b(2)]]
  show ?thesis
  proof (cases "energy_E sm st b \<ge> MIN_DELTA_E sm")
    case True
    with u b(1) lexmin show ?thesis by auto
  next
    case low: False
    show ?thesis
    proof (cases "grace_G sm st b \<ge> MIN_GRACE sm")
      case True
      with u low b(1) lexmin show ?thesis by auto
    next
      case False
      let ?viable = "filter (\<lambda>s. fst (snd (snd s)) < MIN_DELTA_E sm) ?sc"
      have "score sm st b \<in> set ?viable" using b(1) low by (auto simp: score_def Let_def)
      then have "sort_key ckey ?viable \<noteq> []"
        by (metis empty_iff list.set(1) set_sort)
      then obtain s2 rest where s2: "sort_key ckey ?viable = s2 # rest"
        by (cases "sort_key ckey ?viable") auto
      from sort_key_head[OF this] have h: "s2 \<in> set ?viable" "\<forall>x\<in>set ?viable. ckey s2 \<le> ckey x"
        by auto
      from h(1) obtain a2 where a2: "a2 \<in> set candidates" "s2 = score sm st a2"
        "energy_E sm st a2 < MIN_DELTA_E sm"
        by (auto simp: score_def Let_def)
      have best: "\<forall>c\<in>set candidates. energy_E sm st c < MIN_DELTA_E sm \<longrightarrow> coh_le sm st a2 c"
      proof (intro ballI impI)
        fix c assume "c \<in> set candidates" "energy_E sm st c < MIN_DELTA_E sm"
        then have "score sm st c \<in> set ?viable" by (auto simp: score_def Let_def)
        with h(2) have "ckey s2 \<le> ckey (score sm st c)" by blast
        then show "coh_le sm st a2 c" by (simp add: a2(2) ckey_score_le)
      qed
      have res: "minimal_clean_move sm st candidates =
            (if grace_G sm st a2 \<ge> MIN_GRACE sm then accept sm st a2 else (None, None, None))"
        using u low False s2 a2(2) by (simp add: score_def accept_def Let_def)
      show ?thesis
        using b(1) lexmin low False a2(1,3) best res by auto
    qed
  qed
qed

text \<open>The statement at the three example candidates.\<close>

theorem minimal_clean_move_lexicographic_witness:
  "demo_candidates \<noteq> [] \<and>
   (\<exists>b\<in>set demo_candidates. (\<forall>c\<in>set demo_candidates. lex_le demo_seams demo_state b c) \<and>
    (if energy_E demo_seams demo_state b \<ge> MIN_DELTA_E demo_seams then
       minimal_clean_move demo_seams demo_state demo_candidates = (None, None, None)
     else if grace_G demo_seams demo_state b \<ge> MIN_GRACE demo_seams then
       minimal_clean_move demo_seams demo_state demo_candidates = accept demo_seams demo_state b
     else
       (\<exists>a2\<in>set demo_candidates. energy_E demo_seams demo_state a2 < MIN_DELTA_E demo_seams \<and>
          (\<forall>c\<in>set demo_candidates. energy_E demo_seams demo_state c < MIN_DELTA_E demo_seams
              \<longrightarrow> coh_le demo_seams demo_state a2 c) \<and>
          minimal_clean_move demo_seams demo_state demo_candidates =
            (if grace_G demo_seams demo_state a2 \<ge> MIN_GRACE demo_seams
             then accept demo_seams demo_state a2 else (None, None, None)))))"
proof -
  have ne: "demo_candidates \<noteq> []" by (simp add: demo_candidates_def)
  show ?thesis
    using ne minimal_clean_move_lexicographic [OF ne, of demo_seams demo_state] by blast
qed

text \<open>
  Rounding decides ties. The exact products of \<open>a\<close> and \<open>b\<close> are
  \<open>-(1 + 2 ** -51 + 2 ** -104)\<close> and \<open>-(1 + 2 ** -51)\<close>: with a library that rounds
  the first to the second, which is a float, the effective costs tie and \<open>b\<close>, of higher
  coherence, is selected, although the exact product of \<open>a\<close> is the lower one.
\<close>

lemma minimal_clean_move_rounded_tie:
  assumes "round_float py (- (1 + 1 / 2 ^ 52) * (1 + 1 / 2 ^ 52)) = - (1 + 1 / 2 ^ 51)"
    and "round_float py (- (1 + 1 / 2 ^ 51)) = - (1 + 1 / 2 ^ 51)"
  shows "minimal_clean_move (tie_seams py) st [mk_action ''a'', mk_action ''b'']
           = (Some (mk_action ''b''), Some (- (1 + 1 / 2 ^ 51)), Some 1)"
    and "- (1 + 1 / 2 ^ 52) * (1 + 1 / 2 ^ 52) < (- (1 + 1 / 2 ^ 51) * 1 :: real)"
proof -
  have b: "\<bar>- (1 + 1 / 2 ^ 51) :: real\<bar> \<le> FLOAT_MAX"
  proof -
    have "\<bar>- (1 + 1 / 2 ^ 51) :: real\<bar> \<le> 2" by simp
    also have "(2::real) \<le> 2 ^ 1023" using power_increasing[of 1 1023 "2::real"] by simp
    finally show ?thesis using FLOAT_MAX_large by linarith
  qed
  have p1: "to_float py (- (1 + 1 / 2 ^ 52) * (1 + 1 / 2 ^ 52)) = Fin (- (1 + 1 / 2 ^ 51))"
    using assms(1) b by (rule to_float_round)
  have p2: "to_float py (- (1 + 1 / 2 ^ 51)) = Fin (- (1 + 1 / 2 ^ 51))"
    using assms(2) b by (rule to_float_round)
  have ea: "energy_E (tie_seams py) st (mk_action ''a'') = - (1 + 1 / 2 ^ 52)"
    "kernel_weight (tie_seams py) st (mk_action ''a'') = 1 + 1 / 2 ^ 52"
    "grace_G (tie_seams py) st (mk_action ''a'') = 3 / 4"
    and eb: "energy_E (tie_seams py) st (mk_action ''b'') = - (1 + 1 / 2 ^ 51)"
    "kernel_weight (tie_seams py) st (mk_action ''b'') = 1"
    "grace_G (tie_seams py) st (mk_action ''b'') = 1"
    and py: "pylib (tie_seams py) = py"
    by (simp_all add: tie_seams_def mk_action_def)
  have sa: "score (tie_seams py) st (mk_action ''a'')
              = (mk_action ''a'', Fin (- (1 + 1 / 2 ^ 51)), - (1 + 1 / 2 ^ 52), 3 / 4)"
    unfolding score_def Let_def ea py fl_mul.simps p1 ..
  have "to_float py (- (1 + 1 / 2 ^ 51) * 1) = Fin (- (1 + 1 / 2 ^ 51))"
    unfolding mult_1_right by (rule p2)
  then have sb: "score (tie_seams py) st (mk_action ''b'')
              = (mk_action ''b'', Fin (- (1 + 1 / 2 ^ 51)), - (1 + 1 / 2 ^ 51), 1)"
    unfolding score_def Let_def eb py fl_mul.simps by (rule arg_cong[where f = "\<lambda>e. (mk_action ''b'', e, - (1 + 1 / 2 ^ 51), 1)"])
  show "minimal_clean_move (tie_seams py) st [mk_action ''a'', mk_action ''b'']
           = (Some (mk_action ''b''), Some (- (1 + 1 / 2 ^ 51)), Some 1)"
    by (simp add: minimal_clean_move_def sa sb flt_eq_def Let_def) (simp add: tie_seams_def)
  show "- (1 + 1 / 2 ^ 52) * (1 + 1 / 2 ^ 52) < (- (1 + 1 / 2 ^ 51) * 1 :: real)"
    by (simp add: field_simps)
qed

lemma eff_cost_demo:
  "eff_cost demo_seams demo_state (mk_action ''x'') = Fin (- (1 / 10))"
  "eff_cost demo_seams demo_state (mk_action ''y'') = Fin (- (1 / 10))"
  "eff_cost demo_seams demo_state (mk_action ''z'') = Fin (- 1)"
  by (simp_all add: eff_cost_def demo_seams_def mk_action_def to_float_demo)

lemma score_demo:
  "score demo_seams demo_state (mk_action ''x'') = (mk_action ''x'', Fin (- (1 / 10)), - (4 / 100), 9 / 10)"
  "score demo_seams demo_state (mk_action ''y'') = (mk_action ''y'', Fin (- (1 / 10)), - (1 / 10), 6 / 10)"
  "score demo_seams demo_state (mk_action ''z'') = (mk_action ''z'', Fin (- 1), - 1, 1 / 10)"
  by (simp_all add: score_def demo_seams_def mk_action_def to_float_demo Let_def)

text \<open>
  C5 (as stated) fails: on the candidates \<open>x, y, z\<close> the loop picks \<open>z\<close> (effective cost
  \<open>-1\<close>), whose coherence \<open>0.1\<close> misses the floor; the fallback returns \<open>y\<close>, although
  \<open>z\<close> has a lower effective cost than \<open>y\<close>, and although \<open>x\<close> has the same effective
  cost as \<open>y\<close> and a strictly higher coherence.
\<close>

theorem minimal_clean_move_not_least_cost:
  "minimal_clean_move demo_seams demo_state demo_candidates
     = (Some (mk_action ''y''), Some (- (1 / 10)), Some (6 / 10)) \<and>
   flt_lt (eff_cost demo_seams demo_state (mk_action ''z'')) (eff_cost demo_seams demo_state (mk_action ''y'')) \<and>
   flt_eq (eff_cost demo_seams demo_state (mk_action ''x'')) (eff_cost demo_seams demo_state (mk_action ''y'')) \<and>
   grace_G demo_seams demo_state (mk_action ''x'') > grace_G demo_seams demo_state (mk_action ''y'')"
proof -
  have "minimal_clean_move demo_seams demo_state demo_candidates
     = (Some (mk_action ''y''), Some (- (1 / 10)), Some (6 / 10))"
    by (simp add: minimal_clean_move_def demo_candidates_def score_demo flt_eq_def
        less_eq_prod_def less_prod_def Let_def)
      (simp add: demo_seams_def)
  moreover have "grace_G demo_seams demo_state (mk_action ''x'') > grace_G demo_seams demo_state (mk_action ''y'')"
    by (simp add: demo_seams_def mk_action_def)
  ultimately show ?thesis
    by (simp add: eff_cost_demo flt_eq_def)
qed

subsection \<open>The orchestrator's gates (C1, C6)\<close>

text \<open>
  \<open>decide\<close> calls \<open>check_apophatic(state, None)\<close> before it looks at either gate, and
  \<open>check_apophatic\<close> reads \<open>action.params\<close>: every call of \<open>decide\<close> ends in that
  AttributeError.
\<close>

lemma decide_raises: "decide sm now state candidates = Inl AttributeError"
  by (simp add: decide_def check_apophatic_def check_consent_def)

text \<open>What the steps after the gates do when no candidate is below the move threshold.\<close>

lemma select_loop_mem:
  "select_loop xs best = Some r \<Longrightarrow> r \<in> set xs \<or> best = Some r"
  by (induction xs arbitrary: best) (auto split: if_splits)

lemma minimal_clean_move_no_viable:
  assumes "list_all (\<lambda>a. energy_E sm st a \<ge> MIN_DELTA_E sm) candidates"
  shows "minimal_clean_move sm st candidates = (None, None, None)"
proof (cases "select_loop (map (score sm st) candidates) None")
  case None
  then show ?thesis by (simp add: minimal_clean_move_def)
next
  case (Some r)
  with select_loop_mem[OF Some] obtain b where b: "b \<in> set candidates" "r = score sm st b"
    by auto
  from assms b(1) have "energy_E sm st b \<ge> MIN_DELTA_E sm"
    by (simp add: list_all_iff)
  with Some b(2) show ?thesis
    by (simp add: minimal_clean_move_def score_def Let_def)
qed

lemma pgl_decide_no_action:
  "pgl_decide st None \<lparr>logic = [(''truth'', VStr ''N''), (''apophatic_ok'', VBool True)],
       ethics = e, consent = (''ok'', VBool True) # ci, phenomenology = ph,
       repair_horizon = rh\<rparr> N = Stand"
  by (simp add: pgl_decide_def dict_get_default_def)

text \<open>
  C1. The claim: when the consent check or the apophatic check of the state fails,
  \<open>decide\<close> returns Refuse with no chosen action, whatever the candidates. On the state
  with an expired ticket (consent check False) and no candidates, \<open>decide\<close> does not
  return: it raises AttributeError in \<open>check_apophatic(state, None)\<close>.
\<close>

theorem decide_expired_ticket_raises:
  "fst (check_consent 100 expired_state None) = False \<and>
   decide sm 100 expired_state [] = Inl AttributeError"
  by (simp add: decide_raises check_consent_def expired_state_def is_valid_dc_def)

text \<open>The same with the example's configuration.\<close>

theorem decide_expired_ticket_raises_witness:
  "fst (check_consent 100 expired_state None) = False \<and>
   decide demo_seams 100 expired_state [] = Inl AttributeError"
  by (rule decide_expired_ticket_raises)

text \<open>
  C6. The claim: with both gates passed and every candidate's raw cost at or above the
  move threshold, \<open>decide\<close> returns Stand with no chosen action. On the smoke-test state
  (ticket valid, context admissible) with the one candidate \<open>x\<close> of raw cost \<open>-0.04\<close>,
  above the threshold \<open>-0.05\<close>, the solver has no move, but \<open>decide\<close> raises
  AttributeError before it reaches the solver.
\<close>

theorem decide_no_viable_candidate_raises:
  "fst (check_consent now demo_state None) = (now \<le> 86400) \<and>
   admissible (context_st demo_state) [] \<and>
   energy_E demo_seams demo_state (mk_action ''x'') \<ge> MIN_DELTA_E demo_seams \<and>
   minimal_clean_move demo_seams demo_state [mk_action ''x''] = (None, None, None) \<and>
   decide demo_seams now demo_state [mk_action ''x''] = Inl AttributeError"
  by (simp add: decide_raises check_consent_def demo_state_def is_valid_dc_def admissible_def
      FORBIDDEN_KEYS_def CONSTRAINT_ONLY_def demo_seams_def mk_action_def
      minimal_clean_move_def score_def Let_def)

text \<open>The same at time 100, when the ticket is valid.\<close>

theorem decide_no_viable_candidate_raises_witness:
  "fst (check_consent 100 demo_state None) = ((100::real) \<le> 86400) \<and>
   admissible (context_st demo_state) [] \<and>
   energy_E demo_seams demo_state (mk_action ''x'') \<ge> MIN_DELTA_E demo_seams \<and>
   minimal_clean_move demo_seams demo_state [mk_action ''x''] = (None, None, None) \<and>
   decide demo_seams 100 demo_state [mk_action ''x''] = Inl AttributeError"
  by (rule decide_no_viable_candidate_raises)

subsection \<open>The consent checks (C3)\<close>

text \<open>
  \<open>ConsentChecker.check_context\<close> succeeds only on a ticket that is present, within its
  time to live, with invocations left, and, when a target scope is asked for, of a scope
  level at least the target's.
\<close>

lemma can_escalate_levels:
  "can_escalate a b \<longleftrightarrow> (\<exists>la lb. scope_levels a = Some la \<and> scope_levels b = Some lb \<and> lb \<le> la)"
  by (auto simp: can_escalate_def split: option.splits)

lemma any_ticket_True:
  "any_ticket p ts = Inr True \<Longrightarrow> \<exists>t\<in>set ts. p t = Inr True"
  by (induction ts) (auto split: sum.splits if_splits)

lemma check_context_sound:
  assumes "check_context py now ctx target_scope = Inr True"
  shows "\<exists>t\<in>set (extract_from_context py now ctx). \<exists>ttl.
           float_of_int py (ttl_seconds t) = Inr ttl \<and>
           \<not> flt_lt (fl_add py (issued_at t) (Fin ttl)) (Fin now) \<and>
           invocations t < max_invocations t \<and>
           (case target_scope of None \<Rightarrow> True | Some tgt \<Rightarrow> can_escalate (scope t) tgt)"
proof -
  let ?ts = "extract_from_context py now ctx"
  have "\<exists>t\<in>set ?ts. is_valid py now t = Inr True \<and>
          (case target_scope of None \<Rightarrow> True | Some tgt \<Rightarrow> can_escalate (scope t) tgt)"
  proof (cases target_scope)
    case None
    with assms have "any_ticket (is_valid py now) ?ts = Inr True"
      by (simp add: check_context_def Let_def split: if_splits)
    from any_ticket_True[OF this] None show ?thesis by simp
  next
    case (Some tgt)
    let ?p = "\<lambda>t. case is_valid py now t of
                       Inl e \<Rightarrow> Inl e
                     | Inr v \<Rightarrow> Inr (v \<and> can_escalate (scope t) tgt)"
    from Some assms have "any_ticket ?p ?ts = Inr True"
      by (simp add: check_context_def Let_def split: if_splits)
    from any_ticket_True[OF this] obtain t where "t \<in> set ?ts" "?p t = Inr True" by blast
    then show ?thesis using Some by (auto split: sum.splits)
  qed
  then obtain t where t: "t \<in> set ?ts" "is_valid py now t = Inr True"
    "case target_scope of None \<Rightarrow> True | Some tgt \<Rightarrow> can_escalate (scope t) tgt"
    by blast
  from t(2) obtain ttl where "float_of_int py (ttl_seconds t) = Inr ttl"
    and "\<not> flt_lt (fl_add py (issued_at t) (Fin ttl)) (Fin now)"
    and "invocations t < max_invocations t"
    by (auto simp: is_valid_def split: sum.splits if_splits)
  with t(1,3) show ?thesis by blast
qed

lemma check_context_no_tickets:
  "extract_from_context py now ctx = [] \<Longrightarrow> check_context py now ctx target_scope = Inr False"
  by (simp add: check_context_def)

text \<open>
  C3. The claim: the consent check succeeds only if a ticket is present; a state with no
  tickets never passes. The planner's \<open>check_consent\<close> asks that every ticket of the
  state be valid, which holds of the empty list: the state with no tickets passes.
\<close>

theorem check_consent_no_tickets_passes:
  "check_consent now (demo_state\<lparr>consent_tickets := []\<rparr>) None = (True, [(''tickets'', VList [])])"
  by (simp add: check_consent_def)

subsection \<open>Using a ticket (C10)\<close>

lemma use_count:
  "invocations (snd (use py now t)) = invocations t \<or>
   (invocations t < max_invocations t \<and> invocations (snd (use py now t)) = invocations t + 1)"
  by (auto simp: use_def is_valid_def split: sum.splits)

lemma use_max [simp]: "max_invocations (snd (use py now t)) = max_invocations t"
  by (auto simp: use_def split: sum.splits)

lemma use_all_bound:
  "invocations (use_all py nows t) \<le> max (invocations t) (max_invocations t) \<and>
   max_invocations (use_all py nows t) = max_invocations t"
proof (induction nows arbitrary: t)
  case Nil
  show ?case by simp
next
  case (Cons now nows)
  let ?t' = "snd (use py now t)"
  have i: "invocations ?t' \<le> max (invocations t) (max_invocations t)"
    using use_count[of py now t] by auto
  from Cons.IH[of ?t'] i show ?case by auto
qed

text \<open>
  C10 (as amended). When \<open>ttl_seconds\<close> converts to a float: \<open>use()\<close> on an invalid
  ticket (the clock is past the float sum \<open>issued_at + ttl_seconds\<close>, or no invocation
  is left) returns False and leaves the ticket as it is; on a valid ticket it returns
  True and adds exactly one to the invocation count. When \<open>ttl_seconds\<close> is too large
  to convert, \<open>use()\<close> raises OverflowError and leaves the ticket as it is. Hence, for
  a ticket that starts with a count of at most \<open>max_invocations\<close>, no sequence of
  \<open>use()\<close> calls, at whatever times, takes the count above \<open>max_invocations\<close>.
\<close>

theorem use_atomic:
  "(\<forall>ttl. float_of_int py (ttl_seconds t) = Inr ttl \<longrightarrow>
      (if flt_lt (fl_add py (issued_at t) (Fin ttl)) (Fin now) \<or> invocations t \<ge> max_invocations t
       then use py now t = (Inr False, t)
       else use py now t = (Inr True, t\<lparr>invocations := invocations t + 1\<rparr>))) \<and>
   (\<forall>e. float_of_int py (ttl_seconds t) = Inl e \<longrightarrow> use py now t = (Inl e, t)) \<and>
   (invocations t \<le> max_invocations t \<longrightarrow>
      invocations (use_all py nows t) \<le> max_invocations t)"
proof -
  have "invocations t \<le> max_invocations t \<longrightarrow>
      invocations (use_all py nows t) \<le> max_invocations t"
    using use_all_bound[of py nows t] by auto
  then show ?thesis
    by (auto simp: use_def is_valid_def)
qed

lemma float_of_int_demo: "\<bar>real_of_int i\<bar> \<le> 2 ^ 1023 \<Longrightarrow> float_of_int demo_py i = Inr (real_of_int i)"
  by (simp add: float_of_int_def to_float_demo)

lemma is_valid_demo_ticket:
  "is_valid demo_py now (demo_ticket\<lparr>invocations := n\<rparr>) = Inr (now \<le> 10 \<and> n < 2)"
  using float_of_int_demo[of 10]
  by (auto simp: is_valid_def demo_ticket_def to_float_demo)

lemma float_of_int_endless:
  "float_of_int demo_py (ttl_seconds endless_ticket) = Inl OverflowError"
proof -
  have "FLOAT_MAX < 2 ^ 1024"
    unfolding FLOAT_MAX_def by simp
  then have "to_float demo_py (2 ^ 1024) = PosInf"
    by (simp add: to_float_def demo_py_def Let_def)
  then show ?thesis
    by (simp add: float_of_int_def endless_ticket_def)
qed

text \<open>
  On the ticket of the module's test: the first two calls succeed, the third, still
  within the time to live, is refused, and so is a call after the ticket ran out. On the
  ticket whose time to live is \<open>2 ** 1024\<close> seconds the call raises.
\<close>

theorem use_atomic_witness:
  "use demo_py 1 demo_ticket = (Inr True, demo_ticket\<lparr>invocations := 1\<rparr>) \<and>
   use demo_py 11 demo_ticket = (Inr False, demo_ticket) \<and>
   use_all demo_py [1, 2, 3] demo_ticket = demo_ticket\<lparr>invocations := 2\<rparr> \<and>
   invocations (use_all demo_py [1, 2, 3] demo_ticket) \<le> max_invocations demo_ticket \<and>
   use demo_py 1 endless_ticket = (Inl OverflowError, endless_ticket)"
proof -
  have f: "float_of_int demo_py (ttl_seconds demo_ticket) = Inr 10"
    using float_of_int_demo[of 10] by (simp add: demo_ticket_def)
  have s: "fl_add demo_py (issued_at demo_ticket) (Fin 10) = Fin 10"
    by (simp add: demo_ticket_def to_float_demo)
  have a: "use demo_py 1 demo_ticket = (Inr True, demo_ticket\<lparr>invocations := 1\<rparr>)"
    using use_atomic[where py = demo_py and now = 1 and t = demo_ticket and nows = "[]",
        THEN conjunct1, THEN spec, THEN mp, OF f]
    unfolding s by (simp add: demo_ticket_def)
  have b: "use demo_py 11 demo_ticket = (Inr False, demo_ticket)"
    using use_atomic[where py = demo_py and now = 11 and t = demo_ticket and nows = "[]",
        THEN conjunct1, THEN spec, THEN mp, OF f]
    unfolding s by (simp add: demo_ticket_def)
  have v: "\<And>now n. is_valid demo_py now (demo_ticket\<lparr>invocations := n\<rparr>) = Inr (now \<le> 10 \<and> n < 2)"
    by (rule is_valid_demo_ticket)
  have c: "use_all demo_py [1, 2, 3] demo_ticket = demo_ticket\<lparr>invocations := 2\<rparr>"
    using v[of 1 0] v[of 2 1] v[of 3 2] by (simp add: use_def demo_ticket_def)
  have le: "invocations demo_ticket \<le> max_invocations demo_ticket"
    by (simp add: demo_ticket_def)
  have d: "invocations (use_all demo_py [1, 2, 3] demo_ticket) \<le> max_invocations demo_ticket"
    using use_atomic[where py = demo_py and now = 1 and t = demo_ticket and nows = "[1, 2, 3]",
        THEN conjunct2, THEN conjunct2, THEN mp, OF le] .
  have e: "use demo_py 1 endless_ticket = (Inl OverflowError, endless_ticket)"
    using use_atomic[where py = demo_py and now = 1 and t = endless_ticket and nows = "[]",
        THEN conjunct2, THEN conjunct1, THEN spec, THEN mp, OF float_of_int_endless] .
  show ?thesis
    by (intro conjI) (fact a b c d e)+
qed

text \<open>
  The expiry test is on the float sum. The ticket issued at \<open>2 ** 53\<close> for three
  seconds expires, in exact arithmetic, at \<open>2 ** 53 + 3\<close>, which is no float; with a
  library that rounds that sum to \<open>2 ** 53 + 4\<close>, \<open>use()\<close> at time \<open>2 ** 53 + 4\<close>
  succeeds.
\<close>

lemma use_rounded_sum:
  assumes "round_float py 3 = 3" and "round_float py (2 ^ 53 + 3) = 2 ^ 53 + 4"
  shows "use py (2 ^ 53 + 4) late_ticket = (Inr True, late_ticket\<lparr>invocations := 1\<rparr>)"
proof -
  have m: "(2::real) ^ 53 + 4 \<le> 2 ^ 1023"
  proof -
    have "(2::real) ^ 53 + 4 \<le> 2 ^ 54" by simp
    also have "\<dots> \<le> 2 ^ 1023" by (rule power_increasing) simp_all
    finally show ?thesis .
  qed
  have "(3::real) \<le> 2 ^ 53 + 4" by simp
  with m have m3: "(3::real) \<le> 2 ^ 1023" by linarith
  have "to_float py 3 = Fin 3"
    using assms(1) by (rule to_float_round) (use m3 FLOAT_MAX_large in simp)
  then have f: "float_of_int py 3 = Inr 3"
    by (simp add: float_of_int_def)
  have "\<bar>2 ^ 53 + 4 :: real\<bar> = 2 ^ 53 + 4" by simp
  then have b: "\<bar>2 ^ 53 + 4 :: real\<bar> \<le> FLOAT_MAX"
    using m FLOAT_MAX_large by linarith
  have s: "to_float py (2 ^ 53 + 3) = Fin (2 ^ 53 + 4)"
    using assms(2) b by (rule to_float_round)
  have v: "is_valid py (2 ^ 53 + 4) late_ticket = Inr True"
    unfolding is_valid_def late_ticket_def
    by (simp only: ConsentTicket.simps f sum.case fl_add.simps s flt_lt.simps) simp
  show ?thesis
    unfolding use_def v by (simp add: late_ticket_def)
qed

text \<open>
  C10 (as stated) fails. A ticket built with three invocations and \<open>max_invocations = 1\<close>
  is refused by \<open>use()\<close> and keeps its count, which exceeds \<open>max_invocations\<close>. A
  ticket with an invocation left and a time to live of \<open>2 ** 1024\<close> seconds has not
  expired, but \<open>use()\<close> returns neither True nor False on it: the sum
  \<open>issued_at + ttl_seconds\<close> raises OverflowError.
\<close>

theorem use_exceeds_max_invocations:
  "use demo_py 1 spent_ticket = (Inr False, spent_ticket) \<and>
   invocations (snd (use demo_py 1 spent_ticket)) > max_invocations (snd (use demo_py 1 spent_ticket)) \<and>
   invocations endless_ticket < max_invocations endless_ticket \<and>
   use demo_py 1 endless_ticket = (Inl OverflowError, endless_ticket)"
proof -
  have a: "use demo_py 1 spent_ticket = (Inr False, spent_ticket)"
    using float_of_int_demo[of 10]
    by (simp add: use_def is_valid_def spent_ticket_def to_float_demo)
  have b: "use demo_py 1 endless_ticket = (Inl OverflowError, endless_ticket)"
    by (simp add: use_def is_valid_def float_of_int_endless)
  show ?thesis
    unfolding a using b by (simp add: spent_ticket_def endless_ticket_def)
qed

subsection \<open>The will-inversion table (C7)\<close>

text \<open>
  C7 (as amended). Every operator of the table other than \<open>TRANSCENSION\<close> comes back
  when it is inverted twice: if the table sends \<open>w\<close> to \<open>v\<close>, it sends \<open>v\<close> to \<open>w\<close>.
\<close>

theorem will_invert_back:
  assumes "WILL_INVERT w = Some v" "w \<noteq> ''TRANSCENSION''"
  shows "WILL_INVERT v = Some w"
proof -
  from assms(1) have "(w, v) \<in> set [(''NEGATION'', ''POTENTIATION''),
             (''POTENTIATION'', ''NEGATION''),
             (''GENERATION'', ''ANNIHILATION''),
             (''EXPANSION'', ''POSSESSION''),
             (''POSSESSION'', ''EXPANSION''),
             (''CONSUMMATION'', ''ASPIRATION''),
             (''ASPIRATION'', ''CONSUMMATION''),
             (''TRANSCENSION'', ''NEGATION''),
             (''ANNIHILATION'', ''GENERATION'')]"
    unfolding WILL_INVERT_def by (rule map_of_SomeD)
  then have "(w = ''NEGATION'' \<and> v = ''POTENTIATION'')
    \<or> (w = ''POTENTIATION'' \<and> v = ''NEGATION'')
    \<or> (w = ''GENERATION'' \<and> v = ''ANNIHILATION'')
    \<or> (w = ''EXPANSION'' \<and> v = ''POSSESSION'')
    \<or> (w = ''POSSESSION'' \<and> v = ''EXPANSION'')
    \<or> (w = ''CONSUMMATION'' \<and> v = ''ASPIRATION'')
    \<or> (w = ''ASPIRATION'' \<and> v = ''CONSUMMATION'')
    \<or> (w = ''TRANSCENSION'' \<and> v = ''NEGATION'')
    \<or> (w = ''ANNIHILATION'' \<and> v = ''GENERATION'')"
    by simp
  then show ?thesis
    using assms(2) by (elim disjE conjE) (simp_all add: WILL_INVERT_def)
qed

text \<open>\<open>EXPANSION\<close> and \<open>POSSESSION\<close> are each other's counter.\<close>

theorem will_invert_back_witness:
  "WILL_INVERT ''EXPANSION'' = Some ''POSSESSION'' \<and> ''EXPANSION'' \<noteq> ''TRANSCENSION'' \<and>
   WILL_INVERT ''POSSESSION'' = Some ''EXPANSION''"
proof -
  have a: "WILL_INVERT ''EXPANSION'' = Some ''POSSESSION''" by (simp add: WILL_INVERT_def)
  have b: "''EXPANSION'' \<noteq> ''TRANSCENSION''" by simp
  show ?thesis
    by (intro conjI) (fact a b will_invert_back[OF a b])+
qed

text \<open>
  C7 (as stated) fails at \<open>TRANSCENSION\<close>: the table sends it to \<open>NEGATION\<close>
  ("safety: transcend, then test minimal bound"), and \<open>NEGATION\<close> to \<open>POTENTIATION\<close>.
\<close>

theorem will_invert_transcension:
  "WILL_INVERT ''TRANSCENSION'' = Some ''NEGATION'' \<and>
   WILL_INVERT ''NEGATION'' = Some ''POTENTIATION'' \<and>
   Option.bind (WILL_INVERT ''TRANSCENSION'') WILL_INVERT \<noteq> Some ''TRANSCENSION''"
  by (simp add: WILL_INVERT_def)

subsection \<open>Proof tokens (C4)\<close>

lemma sort_key_fst_unique:
  assumes "distinct (map fst d)" "distinct (map fst d')" "set d' = set d"
  shows "sort_key fst d' = sort_key fst d"
proof (rule map_sorted_distinct_set_unique[where f = fst])
  have "inj_on fst (set d)" using assms(1) by (simp add: distinct_map)
  then show "inj_on fst (set (sort_key fst d') \<union> set (sort_key fst d))"
    using assms(3) by simp
  show "distinct (map fst (sort_key fst d'))" using assms(2) by (simp add: distinct_map)
  show "distinct (map fst (sort_key fst d))" using assms(1) by (simp add: distinct_map)
  show "set (sort_key fst d') = set (sort_key fst d)" using assms(3) by simp
qed simp_all

text \<open>
  C4. The token of a proof is a function of its name, outcome and details: the same three
  inputs give the same token. Since the keys are sorted before hashing, this holds also
  when the two details dictionaries are equal as Python dictionaries, that is hold the
  same entries in a different insertion order.
\<close>

theorem mk_proof_token_deterministic:
  assumes "name' = nm" and "ok' = okv"
    and "details' = det \<or>
         (distinct (map fst det) \<and> distinct (map fst details') \<and> set details' = set det)"
  shows "token (mk_proof lib name' ok' details') = token (mk_proof lib nm okv det)"
proof -
  have "sort_key fst details' = sort_key fst det"
    using assms(3) sort_key_fst_unique[of det details'] by blast
  then have "json_dumps lib (VDict details') = json_dumps lib (VDict det)"
    by simp
  then show ?thesis
    using assms(1,2) by (simp add: mk_proof_def blake_def Let_def)
qed

text \<open>The details of a consent proof, written in two orders, give one token.\<close>

theorem mk_proof_token_deterministic_witness:
  "token (mk_proof demo_lib ''consent'' True
            [(''context_scope'', VStr ''org''), (''msg'', VStr ''consent:validated'')])
   = token (mk_proof demo_lib ''consent'' True
            [(''msg'', VStr ''consent:validated''), (''context_scope'', VStr ''org'')])"
  by (rule mk_proof_token_deterministic) (simp_all add: insert_commute)

subsection \<open>The counter-draft (C9)\<close>

lemma py_max_floor: "flt_le (Fin c) (py_max (Fin c) x)"
  by (cases x) (auto simp: py_max_def flt_le_def flt_eq_def)

lemma F0_9_floor: "9 / 10 \<le> F0_9"
  by (simp add: F0_9_def)

lemma raise_lines_ok:
  assumes "raise_lines py ks bl = (bl', None)" "distinct ks"
  shows "(\<forall>k\<in>set ks. \<exists>x. py_float py (dict_get_default bl k (VFloat (Fin 0))) = Inr x \<and>
                          map_of bl' k = Some (VFloat (py_max (Fin F0_9) x))) \<and>
         (\<forall>k. k \<notin> set ks \<longrightarrow> map_of bl' k = map_of bl k)"
  using assms
proof (induction ks arbitrary: bl)
  case Nil
  then show ?case by simp
next
  case (Cons k ks)
  from Cons.prems(1) obtain x where x: "py_float py (dict_get_default bl k (VFloat (Fin 0))) = Inr x"
    by (cases "py_float py (dict_get_default bl k (VFloat (Fin 0)))") auto
  let ?bl1 = "AList.update k (VFloat (py_max (Fin F0_9) x)) bl"
  from Cons.prems(1) x have r: "raise_lines py ks ?bl1 = (bl', None)" by simp
  from Cons.prems(2) have d: "distinct ks" "k \<notin> set ks" by auto
  note ih = Cons.IH[OF r d(1)]
  have same: "\<And>k'. k' \<noteq> k \<Longrightarrow>
      dict_get_default ?bl1 k' (VFloat (Fin 0)) = dict_get_default bl k' (VFloat (Fin 0))"
    by (simp add: dict_get_default_def update_conv')
  have m1: "map_of ?bl1 k = Some (VFloat (py_max (Fin F0_9) x))" by (simp add: update_conv')
  have "map_of bl' k = map_of ?bl1 k" using ih d(2) by blast
  with m1 x have hd: "\<exists>x. py_float py (dict_get_default bl k (VFloat (Fin 0))) = Inr x \<and>
                          map_of bl' k = Some (VFloat (py_max (Fin F0_9) x))" by simp
  have tl: "\<forall>k'\<in>set ks. \<exists>x. py_float py (dict_get_default bl k' (VFloat (Fin 0))) = Inr x \<and>
                          map_of bl' k' = Some (VFloat (py_max (Fin F0_9) x))"
  proof
    fix k' assume k': "k' \<in> set ks"
    then have "k' \<noteq> k" using d(2) by auto
    with ih k' same show "\<exists>x. py_float py (dict_get_default bl k' (VFloat (Fin 0))) = Inr x \<and>
                          map_of bl' k' = Some (VFloat (py_max (Fin F0_9) x))" by auto
  qed
  have other: "\<forall>k'. k' \<notin> set (k # ks) \<longrightarrow> map_of bl' k' = map_of bl k'"
  proof (intro allI impI)
    fix k' assume "k' \<notin> set (k # ks)"
    then have "k' \<notin> set ks" "k' \<noteq> k" by auto
    then have "map_of bl' k' = map_of ?bl1 k'" using ih by blast
    also have "\<dots> = map_of bl k'" using \<open>k' \<noteq> k\<close> by (simp add: update_conv')
    finally show "map_of bl' k' = map_of bl k'" .
  qed
  from hd tl other show ?case by simp
qed

lemma raise_lines_total:
  assumes "\<forall>k\<in>set ks. \<exists>x. py_float py (dict_get_default bl k (VFloat (Fin 0))) = Inr x" "distinct ks"
  shows "\<exists>bl'. raise_lines py ks bl = (bl', None)"
  using assms
proof (induction ks arbitrary: bl)
  case Nil
  then show ?case by simp
next
  case (Cons k ks)
  from Cons.prems(1) obtain x where x: "py_float py (dict_get_default bl k (VFloat (Fin 0))) = Inr x"
    by auto
  let ?bl1 = "AList.update k (VFloat (py_max (Fin F0_9) x)) bl"
  have "\<forall>k'\<in>set ks. \<exists>x. py_float py (dict_get_default ?bl1 k' (VFloat (Fin 0))) = Inr x"
  proof
    fix k' assume k': "k' \<in> set ks"
    then have "k' \<noteq> k" using Cons.prems(2) by auto
    then have "dict_get_default ?bl1 k' (VFloat (Fin 0)) = dict_get_default bl k' (VFloat (Fin 0))"
      by (simp add: dict_get_default_def update_conv')
    with Cons.prems(1) k' show "\<exists>x. py_float py (dict_get_default ?bl1 k' (VFloat (Fin 0))) = Inr x"
      by simp
  qed
  from Cons.IH[OF this] Cons.prems(2) x show ?case by simp
qed

lemma distinct_BUDGET_KEYS: "distinct BUDGET_KEYS"
  by (simp add: BUDGET_KEYS_def)

lemma map_of_setdefault:
  "map_of (setdefault d k v) k' =
     (if k' = k then Some (case map_of d k of None \<Rightarrow> v | Some w \<Rightarrow> w) else map_of d k')"
  by (auto simp: setdefault_def update_conv' split: option.splits)

lemma invert_Inr:
  assumes "snd (invert py draft) = Inr c"
  obtains w bl bl' where
    "will_upper py (draft_params draft) = Inr w"
    "dict_get_default (setdefault (plan draft) ''budget_lines'' (VDict [])) ''budget_lines'' VNone = VDict bl"
    "raise_lines py BUDGET_KEYS bl = (bl', None)"
    "c = \<lparr>draft_id = draft_id draft @ '':counter'', query = query draft,
          plan = setdefault (AList.update ''budget_lines'' (VDict bl')
                   (setdefault (plan draft) ''budget_lines'' (VDict []))) ''rollback_recipe'' (VStr DEFAULT_ROLLBACK),
          draft_params = (case WILL_INVERT w of
                            Some v \<Rightarrow> AList.update ''will'' (VStr v) (draft_params draft)
                          | None \<Rightarrow> draft_params draft),
          draft_context = draft_context draft\<rparr>"
  using assms
  by (auto simp: invert_def Let_def split: sum.splits pyval.splits prod.splits option.splits)

text \<open>
  C9 (as amended). When \<open>_invert\<close> returns a counter-draft, each of the six budget
  lines the code names (privacy, safety, environmental, reputation, technical debt,
  compute) holds the larger of \<open>0.9\<close> and the draft's value for it as a float (\<open>0.0\<close>
  when the draft has none), so at least \<open>0.9\<close>; budget lines under other keys are as
  in the draft. When the plan of the draft has no \<open>rollback_recipe\<close> entry, the default
  recipe is attached; a recipe that the draft holds is kept. Every other entry of the
  plan, the consent context and the query are those of the draft; the id gets the suffix
  \<open>:counter\<close>; the will, when it is in the inversion table, is replaced by its counter.
\<close>

theorem invert_counter_draft:
  assumes "snd (invert py draft) = Inr c"
  shows "(\<forall>k\<in>set BUDGET_KEYS.
            \<exists>x. py_float py (dict_get_default (budget_lines_of draft) k (VFloat (Fin 0))) = Inr x \<and>
                map_of (budget_lines_of c) k = Some (VFloat (py_max (Fin F0_9) x)) \<and>
                flt_le (Fin F0_9) (py_max (Fin F0_9) x)) \<and>
         (\<forall>k. k \<notin> set BUDGET_KEYS \<longrightarrow>
            map_of (budget_lines_of c) k = map_of (budget_lines_of draft) k) \<and>
         (map_of (plan draft) ''rollback_recipe'' = None \<longrightarrow>
            map_of (plan c) ''rollback_recipe'' = Some (VStr DEFAULT_ROLLBACK)) \<and>
         (\<forall>v. map_of (plan draft) ''rollback_recipe'' = Some v \<and> py_truthy v \<longrightarrow>
            map_of (plan c) ''rollback_recipe'' = Some v) \<and>
         (\<forall>k. k \<noteq> ''budget_lines'' \<and> k \<noteq> ''rollback_recipe'' \<longrightarrow>
            map_of (plan c) k = map_of (plan draft) k) \<and>
         draft_context c = draft_context draft \<and> query c = query draft \<and>
         draft_id c = draft_id draft @ '':counter'' \<and>
         (\<forall>w. will_upper py (draft_params draft) = Inr w \<longrightarrow>
            draft_params c = (case WILL_INVERT w of
                                Some v \<Rightarrow> AList.update ''will'' (VStr v) (draft_params draft)
                              | None \<Rightarrow> draft_params draft))"
proof -
  from assms obtain w bl bl' where
    w: "will_upper py (draft_params draft) = Inr w"
    and bl: "dict_get_default (setdefault (plan draft) ''budget_lines'' (VDict [])) ''budget_lines'' VNone = VDict bl"
    and rl: "raise_lines py BUDGET_KEYS bl = (bl', None)"
    and c: "c = \<lparr>draft_id = draft_id draft @ '':counter'', query = query draft,
          plan = setdefault (AList.update ''budget_lines'' (VDict bl')
                   (setdefault (plan draft) ''budget_lines'' (VDict []))) ''rollback_recipe'' (VStr DEFAULT_ROLLBACK),
          draft_params = (case WILL_INVERT w of
                            Some v \<Rightarrow> AList.update ''will'' (VStr v) (draft_params draft)
                          | None \<Rightarrow> draft_params draft),
          draft_context = draft_context draft\<rparr>"
    by (rule invert_Inr)
  have old: "budget_lines_of draft = bl"
    using bl by (auto simp: budget_lines_of_def dict_get_default_def map_of_setdefault
        split: option.splits pyval.splits)
  have new: "budget_lines_of c = bl'"
    by (simp add: c budget_lines_of_def map_of_setdefault update_conv')
  note r = raise_lines_ok[OF rl distinct_BUDGET_KEYS]
  have 1: "\<forall>k\<in>set BUDGET_KEYS.
            \<exists>x. py_float py (dict_get_default (budget_lines_of draft) k (VFloat (Fin 0))) = Inr x \<and>
                map_of (budget_lines_of c) k = Some (VFloat (py_max (Fin F0_9) x)) \<and>
                flt_le (Fin F0_9) (py_max (Fin F0_9) x)"
    using r py_max_floor unfolding old new by fastforce
  have 2: "\<forall>k. k \<notin> set BUDGET_KEYS \<longrightarrow>
            map_of (budget_lines_of c) k = map_of (budget_lines_of draft) k"
    using r unfolding old new by blast
  have 3: "map_of (plan draft) ''rollback_recipe'' = None \<longrightarrow>
            map_of (plan c) ''rollback_recipe'' = Some (VStr DEFAULT_ROLLBACK)"
    by (simp add: c map_of_setdefault update_conv')
  have 4: "\<forall>v. map_of (plan draft) ''rollback_recipe'' = Some v \<and> py_truthy v \<longrightarrow>
            map_of (plan c) ''rollback_recipe'' = Some v"
    by (simp add: c map_of_setdefault update_conv')
  have 5: "\<forall>k. k \<noteq> ''budget_lines'' \<and> k \<noteq> ''rollback_recipe'' \<longrightarrow>
            map_of (plan c) k = map_of (plan draft) k"
    by (simp add: c map_of_setdefault update_conv')
  have 6: "draft_context c = draft_context draft \<and> query c = query draft \<and>
         draft_id c = draft_id draft @ '':counter''"
    by (simp add: c)
  have 7: "\<forall>w. will_upper py (draft_params draft) = Inr w \<longrightarrow>
            draft_params c = (case WILL_INVERT w of
                                Some v \<Rightarrow> AList.update ''will'' (VStr v) (draft_params draft)
                              | None \<Rightarrow> draft_params draft)"
    using w by (simp add: c)
  from 1 2 3 4 5 6 7 show ?thesis by blast
qed

text \<open>
  \<open>_invert\<close> does return a counter-draft when \<open>will\<close> is absent, falsy or a string,
  \<open>budget_lines\<close> is absent or a dictionary, and \<open>float\<close> accepts the values of the
  six lines.
\<close>

lemma invert_total:
  assumes "will_upper py (draft_params draft) = Inr w"
    and "map_of (plan draft) ''budget_lines'' = None \<or> map_of (plan draft) ''budget_lines'' = Some (VDict bl)"
    and "\<forall>k\<in>set BUDGET_KEYS. \<exists>x. py_float py (dict_get_default (budget_lines_of draft) k (VFloat (Fin 0))) = Inr x"
  shows "\<exists>c. snd (invert py draft) = Inr c"
proof -
  obtain bl0 where bl0: "dict_get_default (setdefault (plan draft) ''budget_lines'' (VDict [])) ''budget_lines'' VNone = VDict bl0"
    and old: "budget_lines_of draft = bl0"
    using assms(2)
    by (auto simp: budget_lines_of_def dict_get_default_def map_of_setdefault)
  from raise_lines_total[OF assms(3)[unfolded old] distinct_BUDGET_KEYS]
  obtain bl' where "raise_lines py BUDGET_KEYS bl0 = (bl', None)" by blast
  with assms(1) bl0 show ?thesis
    by (simp add: invert_def Let_def)
qed

text \<open>
  A line that holds an integer is converted as \<open>float\<close> converts it: rounded when the
  integer is no float, and with an OverflowError, which ends \<open>_invert\<close>, when it is
  beyond the floats' range.
\<close>

lemma py_float_int:
  "py_float py (VInt i) =
     (case to_float py (real_of_int i) of Fin x \<Rightarrow> Inr (Fin x) | _ \<Rightarrow> Inl OverflowError)"
  by (simp add: float_of_int_def split: pyfloat.splits)

lemma py_float_int_rounded:
  assumes "round_float py (2 ^ 53 + 1) = 2 ^ 53"
  shows "py_float py (VInt (2 ^ 53 + 1)) = Inr (Fin (2 ^ 53))"
proof -
  have "(2::real) ^ 53 \<le> 2 ^ 1023" by (rule power_increasing) simp_all
  then have b: "\<bar>2 ^ 53 :: real\<bar> \<le> FLOAT_MAX" using FLOAT_MAX_large by simp
  have "real_of_int (2 ^ 53 + 1) = 2 ^ 53 + 1" by simp
  then have "to_float py (real_of_int (2 ^ 53 + 1)) = Fin (2 ^ 53)"
    using to_float_round[OF assms b] by simp
  then show ?thesis
    unfolding py_float_int by simp
qed

lemma py_float_int_overflow:
  assumes "round_float py (2 ^ 1024) = 2 ^ 1024"
  shows "py_float py (VInt (2 ^ 1024)) = Inl OverflowError"
proof -
  have "FLOAT_MAX < 2 ^ 1024" unfolding FLOAT_MAX_def by simp
  moreover have "real_of_int (2 ^ 1024) = 2 ^ 1024" by simp
  ultimately have "to_float py (real_of_int (2 ^ 1024)) = PosInf"
    using assms by (simp add: to_float_def Let_def)
  then show ?thesis
    unfolding py_float_int by simp
qed

lemma upper_Expansion: "upper ''Expansion'' = ''EXPANSION''"
  by code_simp

lemma upper_Nil: "upper [] = []"
  by (simp add: upper_def)

lemma upper_POSSESSION: "upper ''POSSESSION'' = ''POSSESSION''"
  by code_simp

lemma str_upper_demo:
  "str_upper demo_py ''Expansion'' = ''EXPANSION''" "str_upper demo_py [] = []"
  "str_upper demo_py ''POSSESSION'' = ''POSSESSION''"
  by (simp_all add: demo_py_def upper_Expansion upper_Nil upper_POSSESSION)

lemma F_order: "\<not> F0_9 < F0_6" "\<not> F0_9 < F0_8" "\<not> F0_9 < 0" "\<not> F0_9 \<le> F0_8"
  by (simp_all add: F0_6_def F0_8_def F0_9_def)

lemma invert_demo_draft: "snd (invert demo_py demo_draft) = Inr demo_counter"
  by (simp add: invert_def demo_draft_def demo_counter_def will_upper_def str_upper_demo
      WILL_INVERT_def setdefault_def dict_get_default_def BUDGET_KEYS_def Let_def py_max_def F_order)

lemma invert_demo_counter: "snd (invert demo_py demo_counter) = Inr demo_counter2"
  by (simp add: invert_def demo_counter_def demo_counter2_def will_upper_def str_upper_demo
      WILL_INVERT_def setdefault_def dict_get_default_def BUDGET_KEYS_def Let_def py_max_def)

text \<open>
  \<open>setdefault\<close> keeps whatever entry the plan has under \<open>rollback_recipe\<close>, an entry
  that holds \<open>None\<close> included: the counter-draft of such a draft carries no recipe.
\<close>

lemma invert_keeps_recipe_entry:
  assumes "snd (invert py draft) = Inr c" "map_of (plan draft) ''rollback_recipe'' = Some v"
  shows "map_of (plan c) ''rollback_recipe'' = Some v"
  using assms(1)
  by (rule invert_Inr) (simp add: assms(2) map_of_setdefault update_conv')

text \<open>
  The example of the claim: from the draft with \<open>will = Expansion\<close> and the budget lines
  privacy \<open>0.9\<close>, safety \<open>0.8\<close>, technical debt \<open>0.6\<close>, the counter-draft has
  \<open>will = POSSESSION\<close>, all six lines at \<open>0.9\<close>, no line beyond the six, the default
  rollback recipe, and the same consent context, query and deployment scope. Inverted
  again, it keeps its recipe, and its will is \<open>EXPANSION\<close>.
\<close>

theorem invert_counter_draft_witness:
  "snd (invert demo_py demo_draft) = Inr demo_counter \<and>
   (\<exists>x. map_of (budget_lines_of demo_counter) ''safety'' = Some (VFloat x) \<and> flt_le (Fin F0_9) x) \<and>
   (\<exists>x. map_of (budget_lines_of demo_counter) ''compute'' = Some (VFloat x) \<and> flt_le (Fin F0_9) x) \<and>
   map_of (budget_lines_of demo_counter) ''legal'' = None \<and>
   map_of (plan demo_counter) ''rollback_recipe'' = Some (VStr DEFAULT_ROLLBACK) \<and>
   map_of (plan demo_counter) ''deployment_scope'' = map_of (plan demo_draft) ''deployment_scope'' \<and>
   draft_context demo_counter = draft_context demo_draft \<and>
   query demo_counter = query demo_draft \<and>
   map_of (draft_params demo_counter) ''will'' = Some (VStr ''POSSESSION'') \<and>
   snd (invert demo_py demo_counter) = Inr demo_counter2 \<and>
   map_of (plan demo_counter2) ''rollback_recipe'' = Some (VStr DEFAULT_ROLLBACK) \<and>
   map_of (draft_params demo_counter2) ''will'' = Some (VStr ''EXPANSION'')"
proof -
  note t = invert_counter_draft[OF invert_demo_draft]
  note lines = t[THEN conjunct1]
  note rest = t[THEN conjunct2, THEN conjunct2]
  note others = rest[THEN conjunct2, THEN conjunct2, THEN conjunct1]
  have k1: "''safety'' \<in> set BUDGET_KEYS" and k2: "''compute'' \<in> set BUDGET_KEYS"
    by (simp_all add: BUDGET_KEYS_def)
  from bspec[OF lines k1] obtain x1 where
    x1: "map_of (budget_lines_of demo_counter) ''safety'' = Some (VFloat (py_max (Fin F0_9) x1))"
      "flt_le (Fin F0_9) (py_max (Fin F0_9) x1)"
    by (elim exE conjE)
  from bspec[OF lines k2] obtain x2 where
    x2: "map_of (budget_lines_of demo_counter) ''compute'' = Some (VFloat (py_max (Fin F0_9) x2))"
      "flt_le (Fin F0_9) (py_max (Fin F0_9) x2)"
    by (elim exE conjE)
  have 1: "\<exists>x. map_of (budget_lines_of demo_counter) ''safety'' = Some (VFloat x) \<and> flt_le (Fin F0_9) x"
    using x1 by (intro exI conjI)
  have 2: "\<exists>x. map_of (budget_lines_of demo_counter) ''compute'' = Some (VFloat x) \<and> flt_le (Fin F0_9) x"
    using x2 by (intro exI conjI)
  have 3: "map_of (plan demo_counter) ''rollback_recipe'' = Some (VStr DEFAULT_ROLLBACK)"
    using rest[THEN conjunct1] by (simp add: demo_draft_def)
  have 4: "map_of (plan demo_counter) ''deployment_scope'' = map_of (plan demo_draft) ''deployment_scope''"
    using others[THEN spec, of "''deployment_scope''"] by simp
  have 5: "draft_context demo_counter = draft_context demo_draft"
    and 6: "query demo_counter = query demo_draft"
    using rest[THEN conjunct2, THEN conjunct2, THEN conjunct2] by simp_all
  have wu: "will_upper demo_py (draft_params demo_draft) = Inr ''EXPANSION''"
    by (simp add: will_upper_def demo_draft_def str_upper_demo)
  have "draft_params demo_counter =
          (case WILL_INVERT ''EXPANSION'' of
             Some v \<Rightarrow> AList.update ''will'' (VStr v) (draft_params demo_draft)
           | None \<Rightarrow> draft_params demo_draft)"
    using rest[THEN conjunct2, THEN conjunct2, THEN conjunct2, THEN conjunct2, THEN conjunct2,
        THEN conjunct2, THEN spec, THEN mp, OF wu] .
  then have 7: "map_of (draft_params demo_counter) ''will'' = Some (VStr ''POSSESSION'')"
    by (simp add: WILL_INVERT_def demo_draft_def)
  have k3: "''legal'' \<notin> set BUDGET_KEYS" by (simp add: BUDGET_KEYS_def)
  have "map_of (budget_lines_of demo_counter) ''legal'' = map_of (budget_lines_of demo_draft) ''legal''"
    using t[THEN conjunct2, THEN conjunct1, THEN spec, THEN mp, OF k3] .
  then have 8: "map_of (budget_lines_of demo_counter) ''legal'' = None"
    by (simp add: budget_lines_of_def demo_draft_def)
  note t2 = invert_counter_draft[OF invert_demo_counter]
  note rest2 = t2[THEN conjunct2, THEN conjunct2, THEN conjunct2]
  have tr: "map_of (plan demo_counter) ''rollback_recipe'' = Some (VStr DEFAULT_ROLLBACK)
              \<and> py_truthy (VStr DEFAULT_ROLLBACK)"
    by (simp add: demo_counter_def DEFAULT_ROLLBACK_def)
  have 9: "map_of (plan demo_counter2) ''rollback_recipe'' = Some (VStr DEFAULT_ROLLBACK)"
    using rest2[THEN conjunct1, THEN spec, THEN mp, OF tr] .
  have 10: "map_of (draft_params demo_counter2) ''will'' = Some (VStr ''EXPANSION'')"
    by (simp add: demo_counter2_def)
  show ?thesis
    by (intro conjI) (fact invert_demo_draft 1 2 8 3 4 5 6 7 invert_demo_counter 9 10)+
qed

text \<open>
  C9 (as stated) fails: the budget line \<open>legal\<close> of the draft, at \<open>0.5\<close>, is not one
  of the six, and stays at \<open>0.5\<close> in the counter-draft, below the floor.
\<close>

theorem invert_leaves_other_lines:
  "snd (invert demo_py odd_draft) = Inr odd_counter \<and>
   map_of (budget_lines_of odd_counter) ''legal'' = Some (VFloat (Fin (1 / 2))) \<and>
   flt_lt (Fin (1 / 2)) (Fin (9 / 10))"
  by (simp add: invert_def odd_draft_def odd_counter_def will_upper_def str_upper_demo
      WILL_INVERT_def setdefault_def dict_get_default_def BUDGET_KEYS_def Let_def
      budget_lines_of_def py_max_def F_order)

subsection \<open>Arbitration (C8)\<close>

lemma name_mk_proof [simp]: "name (mk_proof lib nm okv det) = nm"
  by (simp add: mk_proof_def Let_def)

lemma ok_mk_proof [simp]: "ok (mk_proof lib nm okv det) = okv"
  by (simp add: mk_proof_def Let_def)

lemma py_min_not_NaN: "a \<noteq> NaN \<Longrightarrow> py_min a b \<noteq> NaN"
  by (cases b) (auto simp: py_min_def)

lemma flt_le_not_lt: "a \<noteq> NaN \<Longrightarrow> b \<noteq> NaN \<Longrightarrow> flt_le a b \<longleftrightarrow> \<not> flt_lt b a"
  by (cases a; cases b) (auto simp: flt_le_def flt_eq_def)

lemma build_Inr:
  assumes "build cb lib py now draft ans = Inr awp"
  obtains c_ok c_msg where
    "consent_ok (draft_context draft) = Inr (c_ok, c_msg)"
    "map name (awp_proofs awp) = PROOF_NAMES"
    "take 3 (map ok (awp_proofs awp)) =
       [c_ok, fst (apophatic_ok (draft_params draft)),
        coverage (ep_assess cb (assess_input draft)) \<ge> coverage_threshold cb
          \<and> rollback_ready (ep_assess cb (assess_input draft))]"
    "risk awp =
       py_min (Fin 1)
         (fl_add py
            (fl_mul py (Fin F0_6)
               (if externals (ep_assess cb (assess_input draft)) \<noteq> []
                then float_sum py (map (ep_expected_cost cb)
                       (externals (ep_assess cb (assess_input draft))))
                else Fin 0))
            (fl_mul py (Fin F0_4)
               (fl_add py (Fin (hl_energy_penalty cb (hl_compute_index cb)))
                  (Fin (hl_grace_penalty cb (hl_compute_index cb))))))"
    "awp_id awp = draft_id draft" "answer awp = ans" "decided_at awp = now"
  using assms
  by (auto simp: build_def Let_def PROOF_NAMES_def split: sum.splits pyval.splits)

lemma build_risk_not_NaN:
  assumes "build cb lib py now draft ans = Inr awp"
  shows "risk awp \<noteq> NaN"
  using assms by (rule build_Inr) (simp add: py_min_not_NaN)

lemma build_total:
  assumes "consent_ok (draft_context draft) = Inr r"
  shows "\<exists>awp. build cb lib py now draft ans = Inr awp"
proof -
  from assms obtain c where "dict_get_default (draft_context draft) ''consent'' (VDict []) = VDict c"
    by (auto simp: consent_ok_def split: pyval.splits)
  with assms show ?thesis
    by (cases r) (simp add: build_def Let_def)
qed

lemma hard_ok_proofs:
  assumes "map name (awp_proofs awp) = PROOF_NAMES"
  shows "hard_ok awp = list_all id (take 3 (map ok (awp_proofs awp)))"
    and "hard_ok awp = (\<forall>p\<in>set (awp_proofs awp). name p \<in> set GATE_NAMES \<longrightarrow> ok p)"
    and "set GATE_NAMES \<subseteq> name ` set (awp_proofs awp)"
proof -
  from assms obtain p1 p2 p3 p4 p5 where
    ps: "awp_proofs awp = [p1, p2, p3, p4, p5]"
    and n: "name p1 = ''consent''" "name p2 = ''apophatic''" "name p3 = ''externalities''"
      "name p4 = ''harms_ledger''" "name p5 = ''remembrance''"
    by (auto simp: PROOF_NAMES_def map_eq_Cons_conv)
  have h: "hard_ok awp = (ok p1 \<and> ok p2 \<and> ok p3)"
    by (simp add: hard_ok_def by_name_def get_bool_def ps n Let_def)
  show "hard_ok awp = list_all id (take 3 (map ok (awp_proofs awp)))"
    by (simp add: h ps)
  show "hard_ok awp = (\<forall>p\<in>set (awp_proofs awp). name p \<in> set GATE_NAMES \<longrightarrow> ok p)"
    by (simp add: h ps n GATE_NAMES_def)
  show "set GATE_NAMES \<subseteq> name ` set (awp_proofs awp)"
    by (simp add: ps n GATE_NAMES_def)
qed

lemma contemplate_Inr:
  assumes "build cb lib py now1 draft ans = Inr pa"
    and "snd (invert py draft) = Inr cd"
    and "build cb lib py now2 cd (counter_answer ans) = Inr ca"
  shows "contemplate cb lib py now1 now2 draft ans =
     Inr \<lparr>primary = pa, counter = ca,
          selection = (if hard_ok pa \<and> \<not> hard_ok ca then ''primary''
                       else if hard_ok ca \<and> \<not> hard_ok pa then ''counter''
                       else if flt_le (risk pa) (risk ca) then ''primary''
                       else ''counter''),
          rationale = [(''hard_ok'', VDict [(''primary'', VBool (hard_ok pa)), (''counter'', VBool (hard_ok ca))]),
                       (''risk'', VDict [(''primary'', VFloat (risk pa)), (''counter'', VFloat (risk ca))]),
                       (''note'', VStr ''selected lower-risk among gates-passing candidates'')]\<rparr>"
  using assms by (simp add: contemplate_def Let_def)

text \<open>
  C8. \<open>contemplate\<close> builds the proofs of the draft (the primary) and of the inverted
  draft (the counter); when both builds and the inversion return, it returns these two
  with a selection: when exactly one side passes the hard gates, that side is selected,
  whatever the risks; when both or neither pass, the counter is selected if its risk is
  strictly lower, the primary otherwise. A side passes the hard gates exactly when its
  proofs named consent, apophatic and externalities, all three of which it carries, are
  ok.
\<close>

theorem contemplate_selection:
  assumes "build cb lib py now1 draft ans = Inr pa"
    and "snd (invert py draft) = Inr cd"
    and "build cb lib py now2 cd (counter_answer ans) = Inr ca"
  shows "\<exists>tr. contemplate cb lib py now1 now2 draft ans = Inr tr \<and>
           primary tr = pa \<and> counter tr = ca \<and>
           (hard_ok pa \<and> \<not> hard_ok ca \<longrightarrow> selection tr = ''primary'') \<and>
           (hard_ok ca \<and> \<not> hard_ok pa \<longrightarrow> selection tr = ''counter'') \<and>
           (hard_ok pa = hard_ok ca \<longrightarrow>
              selection tr = (if flt_lt (risk ca) (risk pa) then ''counter'' else ''primary'')) \<and>
           hard_ok pa = (\<forall>p\<in>set (awp_proofs pa). name p \<in> set GATE_NAMES \<longrightarrow> ok p) \<and>
           hard_ok ca = (\<forall>p\<in>set (awp_proofs ca). name p \<in> set GATE_NAMES \<longrightarrow> ok p) \<and>
           set GATE_NAMES \<subseteq> name ` set (awp_proofs pa) \<and>
           set GATE_NAMES \<subseteq> name ` set (awp_proofs ca)"
proof -
  let ?tr = "\<lparr>primary = pa, counter = ca,
          selection = (if hard_ok pa \<and> \<not> hard_ok ca then ''primary''
                       else if hard_ok ca \<and> \<not> hard_ok pa then ''counter''
                       else if flt_le (risk pa) (risk ca) then ''primary''
                       else ''counter''),
          rationale = [(''hard_ok'', VDict [(''primary'', VBool (hard_ok pa)), (''counter'', VBool (hard_ok ca))]),
                       (''risk'', VDict [(''primary'', VFloat (risk pa)), (''counter'', VFloat (risk ca))]),
                       (''note'', VStr ''selected lower-risk among gates-passing candidates'')]\<rparr>"
  have tr: "contemplate cb lib py now1 now2 draft ans = Inr ?tr"
    using assms by (rule contemplate_Inr)
  from assms(1) have np: "map name (awp_proofs pa) = PROOF_NAMES" by (rule build_Inr)
  from assms(3) have nc: "map name (awp_proofs ca) = PROOF_NAMES" by (rule build_Inr)
  have le: "flt_le (risk pa) (risk ca) \<longleftrightarrow> \<not> flt_lt (risk ca) (risk pa)"
    using build_risk_not_NaN[OF assms(1)] build_risk_not_NaN[OF assms(3)]
    by (rule flt_le_not_lt)
  have s1: "hard_ok pa \<and> \<not> hard_ok ca \<longrightarrow> selection ?tr = ''primary''"
    by simp
  have s2: "hard_ok ca \<and> \<not> hard_ok pa \<longrightarrow> selection ?tr = ''counter''"
    by auto
  have s3: "hard_ok pa = hard_ok ca \<longrightarrow>
              selection ?tr = (if flt_lt (risk ca) (risk pa) then ''counter'' else ''primary'')"
    using le by auto
  have s0: "primary ?tr = pa" "counter ?tr = ca" by simp_all
  show ?thesis
    apply (rule exI[of _ ?tr])
    using tr s0 s1 s2 s3 hard_ok_proofs(2,3)[OF np] hard_ok_proofs(2,3)[OF nc]
    apply (intro conjI)
    apply assumption+
    done
qed

lemma consent_ok_demo:
  "consent_ok [(''consent'', VDict [(''valid'', VBool True), (''scope'', VStr ''org'')])]
     = Inr (True, ''consent:validated'')"
  by (simp add: consent_ok_def dict_get_default_def KNOWN_SCOPES_def)

lemma apophatic_ok_demo:
  "fst (apophatic_ok [(''will'', VStr w), (''no_image'', VBool True)])"
  by (simp add: apophatic_ok_def FORBID_KEYS_def CONSTRAINT_ONLY_pca_def Let_def)

lemma demo_assess_primary:
  "coverage (demo_assess (assess_input demo_draft)) = F0_8"
  "rollback_ready (demo_assess (assess_input demo_draft)) = False"
  "externals (demo_assess (assess_input demo_draft)) = []"
  by (simp_all add: demo_assess_def assess_input_def demo_draft_def dict_merge_def
      dict_get_default_def F_order)

lemma demo_assess_counter:
  "coverage (demo_assess (assess_input demo_counter)) = 1"
  "rollback_ready (demo_assess (assess_input demo_counter)) = True"
  "externals (demo_assess (assess_input demo_counter)) = []"
  by (simp_all add: demo_assess_def assess_input_def demo_counter_def dict_merge_def
      dict_get_default_def DEFAULT_ROLLBACK_def)

text \<open>
  On the example draft, with a pricer that asks for a rollback recipe and a safety line of
  \<open>0.9\<close>: the primary fails the externalities gate, the counter passes all three, and
  the counter is selected although its risk is not lower, where the primary would win.
\<close>

theorem contemplate_selection_witness:
  "\<exists>pa ca tr.
     build demo_collab demo_lib demo_py 1 demo_draft demo_answer = Inr pa \<and>
     snd (invert demo_py demo_draft) = Inr demo_counter \<and>
     build demo_collab demo_lib demo_py 2 demo_counter (counter_answer demo_answer) = Inr ca \<and>
     contemplate demo_collab demo_lib demo_py 1 2 demo_draft demo_answer = Inr tr \<and>
     primary tr = pa \<and> counter tr = ca \<and>
     \<not> hard_ok pa \<and> hard_ok ca \<and> \<not> flt_lt (risk ca) (risk pa) \<and> selection tr = ''counter''"
proof -
  have c: "consent_ok (draft_context demo_draft) = Inr (True, ''consent:validated'')"
    by (simp add: demo_draft_def consent_ok_demo)
  have cc: "consent_ok (draft_context demo_counter) = Inr (True, ''consent:validated'')"
    by (simp add: demo_counter_def consent_ok_demo)
  from build_total[OF c, where cb = demo_collab and lib = demo_lib and py = demo_py
      and now = 1 and ans = demo_answer] obtain pa where
    bp: "build demo_collab demo_lib demo_py 1 demo_draft demo_answer = Inr pa"
    by (elim exE)
  from build_total[OF cc, where cb = demo_collab and lib = demo_lib and py = demo_py
      and now = 2 and ans = "counter_answer demo_answer"] obtain ca where
    bc: "build demo_collab demo_lib demo_py 2 demo_counter (counter_answer demo_answer) = Inr ca"
    by (elim exE)
  from contemplate_selection[OF bp invert_demo_draft bc] obtain tr where
    tr: "contemplate demo_collab demo_lib demo_py 1 2 demo_draft demo_answer = Inr tr"
    and pr: "primary tr = pa" and co: "counter tr = ca"
    and s2: "hard_ok ca \<and> \<not> hard_ok pa \<longrightarrow> selection tr = ''counter''"
    by (elim exE conjE)
  from bp obtain c_ok c_msg where
    p1: "consent_ok (draft_context demo_draft) = Inr (c_ok, c_msg)"
    and p2: "map name (awp_proofs pa) = PROOF_NAMES"
    and p3: "take 3 (map ok (awp_proofs pa)) =
       [c_ok, fst (apophatic_ok (draft_params demo_draft)),
        coverage (ep_assess demo_collab (assess_input demo_draft)) \<ge> coverage_threshold demo_collab
          \<and> rollback_ready (ep_assess demo_collab (assess_input demo_draft))]"
    and p4: "risk pa =
       py_min (Fin 1)
         (fl_add demo_py
            (fl_mul demo_py (Fin F0_6)
               (if externals (ep_assess demo_collab (assess_input demo_draft)) \<noteq> []
                then float_sum demo_py (map (ep_expected_cost demo_collab)
                       (externals (ep_assess demo_collab (assess_input demo_draft))))
                else Fin 0))
            (fl_mul demo_py (Fin F0_4)
               (fl_add demo_py (Fin (hl_energy_penalty demo_collab (hl_compute_index demo_collab)))
                  (Fin (hl_grace_penalty demo_collab (hl_compute_index demo_collab))))))"
    by (rule build_Inr)
  from bc obtain c_ok' c_msg' where
    q1: "consent_ok (draft_context demo_counter) = Inr (c_ok', c_msg')"
    and q2: "map name (awp_proofs ca) = PROOF_NAMES"
    and q3: "take 3 (map ok (awp_proofs ca)) =
       [c_ok', fst (apophatic_ok (draft_params demo_counter)),
        coverage (ep_assess demo_collab (assess_input demo_counter)) \<ge> coverage_threshold demo_collab
          \<and> rollback_ready (ep_assess demo_collab (assess_input demo_counter))]"
    and q4: "risk ca =
       py_min (Fin 1)
         (fl_add demo_py
            (fl_mul demo_py (Fin F0_6)
               (if externals (ep_assess demo_collab (assess_input demo_counter)) \<noteq> []
                then float_sum demo_py (map (ep_expected_cost demo_collab)
                       (externals (ep_assess demo_collab (assess_input demo_counter))))
                else Fin 0))
            (fl_mul demo_py (Fin F0_4)
               (fl_add demo_py (Fin (hl_energy_penalty demo_collab (hl_compute_index demo_collab)))
                  (Fin (hl_grace_penalty demo_collab (hl_compute_index demo_collab))))))"
    by (rule build_Inr)
  have hp: "\<not> hard_ok pa"
    unfolding hard_ok_proofs(1)[OF p2] p3
    by (simp add: demo_collab_def demo_assess_primary)
  from q1 cc have ck: "c_ok' = True" by simp
  have ap: "fst (apophatic_ok (draft_params demo_counter))"
    by (simp add: demo_counter_def apophatic_ok_demo)
  have hc: "hard_ok ca"
    unfolding hard_ok_proofs(1)[OF q2] q3
    by (simp add: ck ap demo_collab_def demo_assess_counter)
  have "risk ca = risk pa"
    unfolding p4 q4 by (simp add: demo_collab_def demo_assess_primary demo_assess_counter)
  moreover have "\<not> flt_lt x x" for x by (cases x) simp_all
  ultimately have rk: "\<not> flt_lt (risk ca) (risk pa)" by simp
  from s2 hp hc have sel: "selection tr = ''counter''"
    by simp
  show ?thesis
    by (intro exI conjI) (fact bp invert_demo_draft bc tr pr co hp hc rk sel)+
qed

end
